theory Spec2Isabelle
  imports Main "HOL-Library.Sublist"
begin

section \<open>Python strings\<close>

text \<open>
  The program is \<^verbatim>\<open>project_manager.py\<close>. A Python \<^verbatim>\<open>str\<close> is modelled as a
  \<^typ>\<open>string\<close>, a list of 8-bit characters read as the code points U+0000 to U+00FF.
  The character tables below (\<^verbatim>\<open>str.isspace\<close>, \<^verbatim>\<open>str.lower\<close>, the classes
  \<^verbatim>\<open>\s\<close>, \<^verbatim>\<open>\d\<close>, \<^verbatim>\<open>\w\<close> of \<^verbatim>\<open>re\<close>) are Python's tables on that range.
  The generator emits two code points beyond it, U+1F4CB in the contents heading and U+2014
  as the placeholder for "no category"; they are written as their UTF-8 bytes, each of which
  is, like the code point it stands for, neither white space nor a digit nor a newline.
\<close>

definition py_isspace :: "char \<Rightarrow> bool" where
  "py_isspace c = (c \<in> set [CHR 0x09, CHR 0x0A, CHR 0x0B, CHR 0x0C, CHR 0x0D,
     CHR 0x1C, CHR 0x1D, CHR 0x1E, CHR 0x1F, CHR 0x20, CHR 0x85, CHR 0xA0])"

definition ascii_upper :: string where
  "ascii_upper = ''ABCDEFGHIJKLMNOPQRSTUVWXYZ''"

definition ascii_lower :: string where
  "ascii_lower = ''abcdefghijklmnopqrstuvwxyz''"

definition ascii_digits :: string where
  "ascii_digits = ''0123456789''"

definition latin1_upper :: string where
  "latin1_upper = [CHR 0xC0, CHR 0xC1, CHR 0xC2, CHR 0xC3, CHR 0xC4, CHR 0xC5, CHR 0xC6,
     CHR 0xC7, CHR 0xC8, CHR 0xC9, CHR 0xCA, CHR 0xCB, CHR 0xCC, CHR 0xCD, CHR 0xCE,
     CHR 0xCF, CHR 0xD0, CHR 0xD1, CHR 0xD2, CHR 0xD3, CHR 0xD4, CHR 0xD5, CHR 0xD6,
     CHR 0xD8, CHR 0xD9, CHR 0xDA, CHR 0xDB, CHR 0xDC, CHR 0xDD, CHR 0xDE]"

definition latin1_lower :: string where
  "latin1_lower = [CHR 0xE0, CHR 0xE1, CHR 0xE2, CHR 0xE3, CHR 0xE4, CHR 0xE5, CHR 0xE6,
     CHR 0xE7, CHR 0xE8, CHR 0xE9, CHR 0xEA, CHR 0xEB, CHR 0xEC, CHR 0xED, CHR 0xEE,
     CHR 0xEF, CHR 0xF0, CHR 0xF1, CHR 0xF2, CHR 0xF3, CHR 0xF4, CHR 0xF5, CHR 0xF6,
     CHR 0xF8, CHR 0xF9, CHR 0xFA, CHR 0xFB, CHR 0xFC, CHR 0xFD, CHR 0xFE]"

text \<open>\<^verbatim>\<open>str.lower()\<close>, character by character: on U+0000 to U+00FF the lower-case mapping
  sends each upper-case letter to one character of the same range.\<close>

definition py_lower_char :: "char \<Rightarrow> char" where
  "py_lower_char c =
     (case map_of (zip (ascii_upper @ latin1_upper) (ascii_lower @ latin1_lower)) c of
        Some d \<Rightarrow> d
      | None \<Rightarrow> c)"

definition py_lower :: "string \<Rightarrow> string" where
  "py_lower s = map py_lower_char s"

text \<open>\<^verbatim>\<open>s.replace(old, new)\<close> where \<^verbatim>\<open>old\<close> and \<^verbatim>\<open>new\<close> are single characters,
  the only use the program makes of it.\<close>

definition py_replace_char :: "char \<Rightarrow> char \<Rightarrow> string \<Rightarrow> string" where
  "py_replace_char old new s = map (\<lambda>c. if c = old then new else c) s"

text \<open>\<^verbatim>\<open>s.strip()\<close> and \<^verbatim>\<open>s.lstrip(chars)\<close>.\<close>

definition py_strip :: "string \<Rightarrow> string" where
  "py_strip s = rev (dropWhile py_isspace (rev (dropWhile py_isspace s)))"

definition py_lstrip :: "string \<Rightarrow> string \<Rightarrow> string" where
  "py_lstrip chars s = dropWhile (\<lambda>c. c \<in> set chars) s"

text \<open>\<^verbatim>\<open>sub in s\<close> on strings.\<close>

fun str_contains :: "string \<Rightarrow> string \<Rightarrow> bool" where
  "str_contains [] sub = (sub = [])"
| "str_contains (c # cs) sub = (prefix sub (c # cs) \<or> str_contains cs sub)"

text \<open>\<^verbatim>\<open>sep.join(xs)\<close>.\<close>

fun str_join :: "string \<Rightarrow> string list \<Rightarrow> string" where
  "str_join sep [] = []"
| "str_join sep [x] = x"
| "str_join sep (x # y # ys) = x @ sep @ str_join sep (y # ys)"

text \<open>\<^verbatim>\<open>str(n)\<close> for an integer, as an f-string formats it.\<close>

definition digit_char :: "nat \<Rightarrow> char" where
  "digit_char d = ascii_digits ! (d mod 10)"

function str_of_nat :: "nat \<Rightarrow> string" where
  "str_of_nat n = (if n < 10 then [digit_char n] else str_of_nat (n div 10) @ [digit_char n])"
  by pat_completeness auto
termination
  by (relation "measure id") auto

definition str_of_int :: "int \<Rightarrow> string" where
  "str_of_int i = (if i < 0 then CHR ''-'' # str_of_nat (nat (- i)) else str_of_nat (nat i))"

text \<open>
  \<^verbatim>\<open>int(s)\<close> for a string of decimal digits. Python raises \<^verbatim>\<open>ValueError\<close> for a string
  that is not a numeral and, with its default limit on integer string conversion
  (\<^verbatim>\<open>sys.int_info.default_max_str_digits\<close>), for one of more than 4300 digits.
\<close>

datatype py_error = ValueError

definition digit_val :: "char \<Rightarrow> int" where
  "digit_val c = (case map_of (zip ascii_digits [0, 1, 2, 3, 4, 5, 6, 7, 8, 9]) c of
                    Some d \<Rightarrow> d | None \<Rightarrow> 0)"

definition max_str_digits :: nat where
  "max_str_digits = 4300"

definition py_int :: "string \<Rightarrow> py_error + int" where
  "py_int s =
     (if s = [] \<or> (\<exists>c \<in> set s. c \<notin> set ascii_digits) then Inl ValueError
      else if max_str_digits < length s then Inl ValueError
      else Inr (foldl (\<lambda>acc c. 10 * acc + digit_val c) 0 s))"

text \<open>\<^verbatim>\<open>range(start, stop, step)\<close> for a positive step.\<close>

function py_range :: "nat \<Rightarrow> nat \<Rightarrow> nat \<Rightarrow> nat list" where
  "py_range i stop step =
     (if i < stop \<and> 0 < step then i # py_range (i + step) stop step else [])"
  by pat_completeness auto
termination
  by (relation "measure (\<lambda>(i, stop, step). stop - i)") auto

text \<open>\<^verbatim>\<open>enumerate(xs, start)\<close>.\<close>

definition py_enumerate :: "'a list \<Rightarrow> nat \<Rightarrow> (nat \<times> 'a) list" where
  "py_enumerate xs start = zip [start ..< start + length xs] xs"

section \<open>Regular expressions\<close>

text \<open>
  The fragment of Python's \<^verbatim>\<open>re\<close> that the program's patterns use: literals, character
  classes, concatenation, ordered alternation, greedy and lazy repetition, capturing groups,
  positive lookahead and \<^verbatim>\<open>$\<close>. \<^verbatim>\<open>re\<close> is a backtracking matcher: at one start position
  it explores the alternatives in priority order and takes the first that lets the rest of
  the pattern match. \<open>rmatch r st k\<close> is that search: it matches \<open>r\<close> at the front of the
  remaining input \<open>fst st\<close> and hands each way of doing so, in priority order, to the
  continuation \<open>k\<close> (the rest of the pattern) until one succeeds. \<open>snd st\<close> holds the text
  of the groups captured so far.
\<close>

datatype regex =
    Lit string
  | Cls "char \<Rightarrow> bool"
  | Seq regex regex
  | Alt regex regex
  | Star regex
  | LazyStar regex
  | Grp nat regex
  | Look regex
  | Eol

type_synonym mstate = "string \<times> (nat \<times> string) list"

text \<open>
  A repetition stops iterating when an iteration consumes nothing, as \<^verbatim>\<open>re\<close> does; no
  pattern of the program repeats an expression that can match the empty string.
  \<open>Eol\<close> is \<^verbatim>\<open>$\<close> without \<^verbatim>\<open>re.MULTILINE\<close>: the end of the string, or just before a
  newline that ends the string.
\<close>

function rmatch :: "regex \<Rightarrow> mstate \<Rightarrow> (mstate \<Rightarrow> mstate option) \<Rightarrow> mstate option" where
  "rmatch (Lit l) st k =
     (if prefix l (fst st) then k (drop (length l) (fst st), snd st) else None)"
| "rmatch (Cls P) st k =
     (case fst st of [] \<Rightarrow> None | c # cs \<Rightarrow> if P c then k (cs, snd st) else None)"
| "rmatch (Seq a b) st k = rmatch a st (\<lambda>st'. rmatch b st' k)"
| "rmatch (Alt a b) st k =
     (case rmatch a st k of Some r \<Rightarrow> Some r | None \<Rightarrow> rmatch b st k)"
| "rmatch (Star a) st k =
     (case rmatch a st (\<lambda>st'. if length (fst st') < length (fst st)
                                 then rmatch (Star a) st' k else None) of
        Some r \<Rightarrow> Some r
      | None \<Rightarrow> k st)"
| "rmatch (LazyStar a) st k =
     (case k st of
        Some r \<Rightarrow> Some r
      | None \<Rightarrow> rmatch a st (\<lambda>st'. if length (fst st') < length (fst st)
                                      then rmatch (LazyStar a) st' k else None))"
| "rmatch (Grp n a) st k =
     rmatch a st (\<lambda>st'. k (fst st',
        (n, take (length (fst st) - length (fst st')) (fst st)) # snd st'))"
| "rmatch (Look a) st k =
     (case rmatch a st Some of Some _ \<Rightarrow> k st | None \<Rightarrow> None)"
| "rmatch Eol st k = (if fst st = [] \<or> fst st = [CHR 0x0A] then k st else None)"
  by pat_completeness auto
termination
  by (relation "(\<lambda>(r, st, k). size r) <*mlex*> measure (\<lambda>(r, st, k). length (fst st))")
     (auto simp: wf_mlex mlex_less mlex_leq)

text \<open>\<^verbatim>\<open>x+\<close> is \<^verbatim>\<open>x\<close> followed by \<^verbatim>\<open>x*\<close>.\<close>

definition Plus :: "regex \<Rightarrow> regex" where
  "Plus r = Seq r (Star r)"

text \<open>The character classes of the patterns.\<close>

definition none_of :: "string \<Rightarrow> char \<Rightarrow> bool" where
  "none_of cs c = (c \<notin> set cs)"

definition not_newline :: "char \<Rightarrow> bool" where
  "not_newline c = (c \<noteq> CHR 0x0A)"

definition any_char :: "char \<Rightarrow> bool" where
  "any_char c = True"

definition is_digit :: "char \<Rightarrow> bool" where
  "is_digit c = (c \<in> set ascii_digits)"

definition latin1_alnum :: string where
  "latin1_alnum = [CHR 0xAA, CHR 0xB2, CHR 0xB3, CHR 0xB5, CHR 0xB9, CHR 0xBA, CHR 0xBC,
     CHR 0xBD, CHR 0xBE, CHR 0xDF, CHR 0xFF] @ latin1_upper @ latin1_lower"

definition is_word :: "char \<Rightarrow> bool" where
  "is_word c = (c \<in> set (ascii_lower @ ascii_upper @ ascii_digits @ ''_'' @ latin1_alnum))"

text \<open>
  A match object: the text of the whole match (group 0) and the captured groups. Every
  group of every pattern below lies on each path through its pattern, so a successful
  match has captured it.
\<close>

type_synonym rmatchobj = "string \<times> (nat \<times> string) list"

definition group :: "rmatchobj \<Rightarrow> nat \<Rightarrow> string" where
  "group m n = (if n = 0 then fst m else case map_of (snd m) n of Some t \<Rightarrow> t | None \<Rightarrow> [])"

text \<open>One attempt at the front of \<open>s\<close>: the match object and the input after the match.\<close>

definition match_here :: "regex \<Rightarrow> string \<Rightarrow> (rmatchobj \<times> string) option" where
  "match_here r s =
     (case rmatch r (s, []) Some of
        None \<Rightarrow> None
      | Some st' \<Rightarrow> Some ((take (length s - length (fst st')) s, snd st'), fst st'))"

text \<open>\<^verbatim>\<open>re.search\<close>: the match at the leftmost position that has one.\<close>

fun re_search :: "regex \<Rightarrow> string \<Rightarrow> rmatchobj option" where
  "re_search r [] = map_option fst (match_here r [])"
| "re_search r (c # cs) =
     (case match_here r (c # cs) of Some res \<Rightarrow> Some (fst res) | None \<Rightarrow> re_search r cs)"

text \<open>
  The successive non-overlapping matches that \<^verbatim>\<open>re.findall\<close>, \<^verbatim>\<open>re.split\<close> and
  \<^verbatim>\<open>re.sub\<close> work on: after a match the scan resumes where the match ended, and after an
  empty match one character further.
\<close>

function re_finditer :: "regex \<Rightarrow> string \<Rightarrow> rmatchobj list" where
  "re_finditer r s =
     (case match_here r s of
        Some res \<Rightarrow>
          (if length (snd res) < length s then fst res # re_finditer r (snd res)
           else (case s of [] \<Rightarrow> [fst res] | c # cs \<Rightarrow> fst res # re_finditer r cs))
      | None \<Rightarrow> (case s of [] \<Rightarrow> [] | c # cs \<Rightarrow> re_finditer r cs))"
  by pat_completeness auto
termination
  by (relation "measure (\<lambda>(r, s). length s)") auto

text \<open>\<^verbatim>\<open>re.findall\<close> for a pattern with one group, and for one with two groups.\<close>

definition re_findall1 :: "regex \<Rightarrow> string \<Rightarrow> string list" where
  "re_findall1 r s = map (\<lambda>m. group m 1) (re_finditer r s)"

definition re_findall2 :: "regex \<Rightarrow> string \<Rightarrow> (string \<times> string) list" where
  "re_findall2 r s = map (\<lambda>m. (group m 1, group m 2)) (re_finditer r s)"

text \<open>\<^verbatim>\<open>re.split\<close> for a pattern without capturing groups; \<open>cur\<close> is the piece being read.\<close>

function re_split_from :: "regex \<Rightarrow> string \<Rightarrow> string \<Rightarrow> string list" where
  "re_split_from r cur s =
     (case match_here r s of
        Some res \<Rightarrow>
          (if length (snd res) < length s then cur # re_split_from r [] (snd res)
           else (case s of [] \<Rightarrow> [cur, []] | c # cs \<Rightarrow> cur # re_split_from r [c] cs))
      | None \<Rightarrow> (case s of [] \<Rightarrow> [cur] | c # cs \<Rightarrow> re_split_from r (cur @ [c]) cs))"
  by pat_completeness auto
termination
  by (relation "measure (\<lambda>(r, cur, s). length s)") auto

definition re_split :: "regex \<Rightarrow> string \<Rightarrow> string list" where
  "re_split r s = re_split_from r [] s"

text \<open>\<^verbatim>\<open>re.sub\<close> with a replacement that is plain text.\<close>

function re_sub :: "regex \<Rightarrow> string \<Rightarrow> string \<Rightarrow> string" where
  "re_sub r repl s =
     (case match_here r s of
        Some res \<Rightarrow>
          (if length (snd res) < length s then repl @ re_sub r repl (snd res)
           else (case s of [] \<Rightarrow> repl | c # cs \<Rightarrow> repl @ c # re_sub r repl cs))
      | None \<Rightarrow> (case s of [] \<Rightarrow> [] | c # cs \<Rightarrow> c # re_sub r repl cs))"
  by pat_completeness auto
termination
  by (relation "measure (\<lambda>(r, repl, s). length s)") auto

section \<open>The project record\<close>

text \<open>Class \<^verbatim>\<open>Project\<close>; \<open>Project_init\<close> is its constructor.\<close>

record project =
  proj_id :: string
  title :: string
  short_description :: string
  long_description :: string
  categories :: "string list"
  banner_image :: string
  banner_local_path :: string
  technologies :: "string list"
  features :: "string list"
  links :: "string \<rightharpoonup> string"
  screenshots :: "string list"
  screenshots_local_paths :: "string list"
  show_logo :: bool
  logo_url :: string
  logo_position :: string
  show_border :: bool
  border_style :: string
  theme_color :: string
  screenshot_layout :: string
  screenshot_size :: int

definition Project_init :: project where
  "Project_init = \<lparr>
     proj_id = [], title = [], short_description = [], long_description = [],
     categories = [], banner_image = [], banner_local_path = [],
     technologies = [], features = [], links = Map.empty,
     screenshots = [], screenshots_local_paths = [],
     show_logo = True, logo_url = [], logo_position = ''center'',
     show_border = False, border_style = ''rounded'', theme_color = ''#000000'',
     screenshot_layout = ''horizontal'', screenshot_size = 200 \<rparr>"

text \<open>\<^verbatim>\<open>links.get(key)\<close> read as a string: a missing key and an empty value both count as
  no link.\<close>

definition links_get :: "(string \<rightharpoonup> string) \<Rightarrow> string \<Rightarrow> string" where
  "links_get m key = (case m key of Some v \<Rightarrow> v | None \<Rightarrow> [])"

definition link_keys :: "string list" where
  "link_keys = [''playStore'', ''appStore'', ''website'', ''github'', ''apk'']"

text \<open>\<^verbatim>\<open>x or default\<close> on strings.\<close>

definition or_else :: "string \<Rightarrow> string \<Rightarrow> string" where
  "or_else x d = (if x = [] then d else x)"

text \<open>The slug rule, written out twice in the source (for the anchor of the table of
  contents and for the id of a decoded project):
  \<^verbatim>\<open>re.sub(r'[^a-z0-9\-]', '', title.lower().replace(' ', '-'))\<close>.\<close>

definition slug_keep :: "char \<Rightarrow> bool" where
  "slug_keep c = (c \<in> set (ascii_lower @ ascii_digits @ ''-''))"

definition re_slug :: regex where
  "re_slug = Cls (\<lambda>c. \<not> slug_keep c)"

definition slug :: "string \<Rightarrow> string" where
  "slug t = re_sub re_slug [] (py_replace_char (CHR '' '') (CHR ''-'') (py_lower t))"

text \<open>What the program uses of \<^verbatim>\<open>os.path\<close>; the file system and the platform's path
  rules are parameters of the model.\<close>

record os_path =
  path_exists :: "string \<Rightarrow> bool"
  path_isabs :: "string \<Rightarrow> bool"
  path_join :: "string \<Rightarrow> string \<Rightarrow> string"
  path_dirname :: "string \<Rightarrow> string"
  path_basename :: "string \<Rightarrow> string"
  path_splitext :: "string \<Rightarrow> string \<times> string"

section \<open>The encoder\<close>

text \<open>\<^verbatim>\<open>_generate_project_md\<close>. The source appends to \<^verbatim>\<open>content_lines\<close> section by
  section; each section is one function here, in the order of the source.\<close>

definition border_css :: "project \<Rightarrow> string" where
  \<open>border_css p =
     (let style = or_else (border_style p) ''rounded'' in
      if show_border p then
        (if style = ''rounded'' then
           ''border: 1px solid #e5e7eb; border-radius: 12px; padding: 24px; margin: 16px 0;''
         else if style = ''square'' then
           ''border: 1px solid #e5e7eb; padding: 24px; margin: 16px 0;''
         else if style = ''dashed'' then
           ''border: 2px dashed #e5e7eb; border-radius: 8px; padding: 24px; margin: 16px 0;''
         else [])
      else [])\<close>

definition logo_lines :: "os_path \<Rightarrow> project \<Rightarrow> string list" where
  \<open>logo_lines os p =
     (if show_logo p \<and> logo_url p \<noteq> [] then
        (let logo_path =
           (if path_exists os (logo_url p)
            then ''images/'' @ proj_id p @ ''/logo'' @ snd (path_splitext os (logo_url p))
            else logo_url p)
         in [''<img src="'' @ logo_path @ ''" alt="'' @ title p @ '' logo" height="64">'', []])
      else [])\<close>

definition title_lines :: "project \<Rightarrow> string list" where
  \<open>title_lines p = [''## '' @ or_else (title p) ''Untitled'', []]\<close>

definition category_lines :: "project \<Rightarrow> string list" where
  \<open>category_lines p =
     (if categories p \<noteq> [] then
        [str_join '' '' (map (\<lambda>cat. ''`'' @ cat @ ''`'') (categories p)), []]
      else [])\<close>

definition banner_lines :: "os_path \<Rightarrow> project \<Rightarrow> string list" where
  \<open>banner_lines os p =
     (if banner_image p \<noteq> [] then
        (let banner_path =
           (if path_exists os (banner_image p)
            then ''images/'' @ proj_id p @ ''/banner'' @ snd (path_splitext os (banner_image p))
            else banner_image p)
         in [''<img src="'' @ banner_path @ ''" alt="'' @ title p @ ''" width="100%">'', []])
      else [])\<close>

definition description_lines :: "project \<Rightarrow> string list" where
  \<open>description_lines p =
     (if short_description p \<noteq> [] then [''**'' @ short_description p @ ''**'', []] else []) @
     (if long_description p \<noteq> [] then [''<p>'' @ long_description p @ ''</p>'', []] else [])\<close>

definition badge :: "string \<Rightarrow> string \<Rightarrow> string" where
  \<open>badge url shield =
     ''<a href="'' @ url @ ''"><img src="https://img.shields.io/badge/'' @ shield @ ''"></a>''\<close>

definition link_badges :: "project \<Rightarrow> string list" where
  \<open>link_badges p =
     (let theme = py_lstrip ''#'' (or_else (theme_color p) ''#000000'');
          get = links_get (links p) in
      (if get ''playStore'' \<noteq> [] then
         [badge (get ''playStore'')
            ''Play_Store-414141?style=for-the-badge&logo=google-play&logoColor=white'']
       else []) @
      (if get ''appStore'' \<noteq> [] then
         [badge (get ''appStore'')
            ''App_Store-0D96F6?style=for-the-badge&logo=app-store&logoColor=white'']
       else []) @
      (if get ''website'' \<noteq> [] then
         [badge (get ''website'')
            (''Website-'' @ theme @ ''?style=for-the-badge&logo=safari&logoColor=white'')]
       else []) @
      (if get ''github'' \<noteq> [] then
         [badge (get ''github'')
            ''GitHub-181717?style=for-the-badge&logo=github&logoColor=white'']
       else []) @
      (if get ''apk'' \<noteq> [] then
         [badge (get ''apk'')
            ''APK-3DDC84?style=for-the-badge&logo=android&logoColor=white'']
       else []))\<close>

definition link_lines :: "project \<Rightarrow> string list" where
  \<open>link_lines p =
     (if link_badges p \<noteq> [] then
        [''<p>''] @ map (\<lambda>b. ''  '' @ b) (link_badges p) @ [''</p>'', []]
      else [])\<close>

definition tech_lines :: "project \<Rightarrow> string list" where
  \<open>tech_lines p =
     (if technologies p \<noteq> [] then
        [''### Tech Stack'', [], ''<p>''] @
        map (\<lambda>tech. ''  <code>'' @ tech @ ''</code>'') (technologies p) @
        [''</p>'', []]
      else [])\<close>

definition feature_lines :: "project \<Rightarrow> string list" where
  \<open>feature_lines p =
     (if features p \<noteq> [] then
        [''### Features'', []] @ map (\<lambda>f. ''- '' @ f) (features p) @ [[]]
      else [])\<close>

text \<open>The path of screenshot number \<open>idx\<close> and its image tag.\<close>

definition screenshot_img :: "os_path \<Rightarrow> project \<Rightarrow> nat \<times> string \<Rightarrow> string" where
  \<open>screenshot_img os p e =
     (let ext = or_else (snd (path_splitext os (snd e))) ''.png'';
          size = (if screenshot_size p = 0 then 200 else screenshot_size p)
      in ''<img src="images/'' @ proj_id p @ ''/'' @ str_of_nat (fst e) @ ext @
         ''" width="'' @ str_of_int size @ ''">'')\<close>

definition grid_cell :: "os_path \<Rightarrow> project \<Rightarrow> (nat \<times> string) list \<Rightarrow> nat \<Rightarrow> string" where
  \<open>grid_cell os p screenshots_list k =
     (if k < length screenshots_list
      then ''    <td align="center">'' @ screenshot_img os p (screenshots_list ! k) @ ''</td>''
      else ''    <td></td>'')\<close>

definition grid_row :: "os_path \<Rightarrow> project \<Rightarrow> (nat \<times> string) list \<Rightarrow> nat \<Rightarrow> string list" where
  \<open>grid_row os p screenshots_list i =
     [''  <tr>''] @ map (\<lambda>j. grid_cell os p screenshots_list (i + j)) [0, 1] @ [''  </tr>'']\<close>

definition grid_lines :: "os_path \<Rightarrow> project \<Rightarrow> string list" where
  \<open>grid_lines os p =
     (let screenshots_list = py_enumerate (screenshots p) 1 in
      [''<table align="center">''] @
      concat (map (grid_row os p screenshots_list) (py_range 0 (length screenshots_list) 2)) @
      [''</table>''])\<close>

definition screenshot_lines :: "os_path \<Rightarrow> project \<Rightarrow> string list" where
  \<open>screenshot_lines os p =
     (if screenshots p \<noteq> [] then
        (let layout = or_else (screenshot_layout p) ''horizontal'' in
         [''### Screenshots'', []] @
         (if layout = ''horizontal'' then
            [''<p>''] @
            map (\<lambda>e. ''  '' @ screenshot_img os p e) (py_enumerate (screenshots p) 1) @
            [''</p>'']
          else if layout = ''grid'' then grid_lines os p
          else if layout = ''vertical'' then
            [''<p>''] @
            map (\<lambda>e. ''  '' @ screenshot_img os p e @ ''<br>'') (py_enumerate (screenshots p) 1) @
            [''</p>'']
          else []) @
         [[]])
      else [])\<close>

definition content_lines :: "os_path \<Rightarrow> project \<Rightarrow> string list" where
  \<open>content_lines os p =
     [''<div align="center">'', []] @
     logo_lines os p @ title_lines p @ category_lines p @ banner_lines os p @
     description_lines p @ link_lines p @ tech_lines p @ feature_lines p @
     screenshot_lines os p @
     [''</div>'', []]\<close>

definition generate_project_lines :: "os_path \<Rightarrow> project \<Rightarrow> string list" where
  \<open>generate_project_lines os p =
     (if show_border p \<and> border_css p \<noteq> [] then
        [''<div style="'' @ border_css p @ ''">'', []] @ content_lines os p @ [''</div>'']
      else content_lines os p)\<close>

definition generate_project_md :: "os_path \<Rightarrow> project \<Rightarrow> string" where
  \<open>generate_project_md os p = str_join ''\<newline>'' (generate_project_lines os p)\<close>

text \<open>\<^verbatim>\<open>_generate_full_md\<close>. \<open>today\<close> stands for
  \<^verbatim>\<open>datetime.now().strftime("%B %d, %Y")\<close>.\<close>

definition clipboard_emoji :: string where
  "clipboard_emoji = [CHR 0xF0, CHR 0x9F, CHR 0x93, CHR 0x8B]"

definition em_dash :: string where
  "em_dash = [CHR 0xE2, CHR 0x80, CHR 0x94]"

definition category_display :: "project \<Rightarrow> string" where
  \<open>category_display p =
     (if categories p \<noteq> [] then str_join '', '' (categories p) else em_dash)\<close>

definition header_lines :: "string list" where
  \<open>header_lines =
     [''<div align="center">'', [],
      ''<img src="images/icon-dark.png" alt="Hexagone" height="120">'', [],
      ''# Hexagone Projects'', [],
      ''### About this Repository'', [],
      ''This repository contains a collection of projects we have built across industries including e-commerce, fintech, travel, education, healthcare, IoT, and lifestyle.'',
      [],
      ''<p>'',
      ''  <a href="https://theHexagone.com"><img src="https://img.shields.io/badge/theHexagone.com-000000?style=for-the-badge&logo=safari&logoColor=white"></a>'',
      ''</p>'', [],
      ''</div>'', [],
      ''---'', []]\<close>

definition toc_row :: "nat \<times> project \<Rightarrow> string" where
  \<open>toc_row e =
     (let i = fst e; p = snd e;
          title = or_else (title p) (''Project '' @ str_of_nat i);
          anchor = slug title;
          cat = category_display p
      in ''| '' @ str_of_nat i @ '' | ['' @ title @ ''](#'' @ anchor @ '') | '' @ cat @ '' |'')\<close>

definition toc_lines :: "project list \<Rightarrow> string list" where
  \<open>toc_lines projects =
     (if projects \<noteq> [] then
        [''<div align="center">'', [],
         ''## '' @ clipboard_emoji @ '' Contents'', [],
         ''| # | Project | Categories |'',
         ''|:---:|:----------|:------------|''] @
        map toc_row (py_enumerate projects 1) @
        [[], ''</div>'', [], ''---'', []]
      else [])\<close>

definition project_block_lines :: "os_path \<Rightarrow> nat \<times> project \<Rightarrow> string list" where
  \<open>project_block_lines os e =
     (if 0 < fst e then [[], ''<hr>'', []] else []) @ [generate_project_md os (snd e)]\<close>

definition footer_lines :: "string \<Rightarrow> string list" where
  \<open>footer_lines today =
     [[], ''---'', [],
      ''<div align="center">'', [],
      ''<sub>Last updated: '' @ today @ ''</sub>'', [],
      ''</div>'']\<close>

definition generate_full_md :: "os_path \<Rightarrow> string \<Rightarrow> project list \<Rightarrow> string" where
  \<open>generate_full_md os today projects =
     str_join ''\<newline>''
       (header_lines @ toc_lines projects @
        concat (map (project_block_lines os) (py_enumerate projects 0)) @
        footer_lines today)\<close>

section \<open>The decoder\<close>

text \<open>The patterns of \<^verbatim>\<open>_parse_md\<close>, each next to its source text.\<close>

text \<open>\<^verbatim>\<open><hr>|(?:\n---\n)\<close>\<close>

definition re_rule :: regex where
  \<open>re_rule = Alt (Lit ''<hr>'') (Lit ''\<newline>---\<newline>'')\<close>

text \<open>\<^verbatim>\<open>##\s+(.+)\<close>\<close>

definition re_title :: regex where
  \<open>re_title = Seq (Lit ''##'') (Seq (Plus (Cls py_isspace)) (Grp 1 (Plus (Cls not_newline))))\<close>

text \<open>\<^verbatim>\<open>`([^`]+)`\<close>\<close>

definition re_backtick :: regex where
  \<open>re_backtick = Seq (Lit ''`'') (Seq (Grp 1 (Plus (Cls (none_of ''`'')))) (Lit ''`''))\<close>

text \<open>\<^verbatim>\<open>\*\*([^*]+)\*\*\<close>\<close>

definition re_bold :: regex where
  \<open>re_bold = Seq (Lit ''**'') (Seq (Grp 1 (Plus (Cls (none_of ''*'')))) (Lit ''**''))\<close>

text \<open>\<^verbatim>\<open><p>([^<]+)</p>\<close>\<close>

definition re_para :: regex where
  \<open>re_para = Seq (Lit ''<p>'') (Seq (Grp 1 (Plus (Cls (none_of ''<'')))) (Lit ''</p>''))\<close>

text \<open>\<^verbatim>\<open>###\s*Tech Stack.*?<p>(.*?)</p>\<close> with \<^verbatim>\<open>re.DOTALL\<close>\<close>

definition re_tech_section :: regex where
  \<open>re_tech_section =
     Seq (Lit ''###'') (Seq (Star (Cls py_isspace)) (Seq (Lit ''Tech Stack'')
       (Seq (LazyStar (Cls any_char)) (Seq (Lit ''<p>'')
         (Seq (Grp 1 (LazyStar (Cls any_char))) (Lit ''</p>''))))))\<close>

text \<open>\<^verbatim>\<open><code>([^<]+)</code>\<close>\<close>

definition re_code :: regex where
  \<open>re_code = Seq (Lit ''<code>'') (Seq (Grp 1 (Plus (Cls (none_of ''<'')))) (Lit ''</code>''))\<close>

text \<open>\<^verbatim>\<open>###\s*Features(.*?)(?=###|$)\<close> with \<^verbatim>\<open>re.DOTALL\<close>\<close>

definition re_features_section :: regex where
  \<open>re_features_section =
     Seq (Lit ''###'') (Seq (Star (Cls py_isspace)) (Seq (Lit ''Features'')
       (Seq (Grp 1 (LazyStar (Cls any_char))) (Look (Alt (Lit ''###'') Eol)))))\<close>

text \<open>\<^verbatim>\<open>-\s+(.+)\<close>\<close>

definition re_bullet :: regex where
  \<open>re_bullet = Seq (Lit ''-'') (Seq (Plus (Cls py_isspace)) (Grp 1 (Plus (Cls not_newline))))\<close>

text \<open>\<^verbatim>\<open>href="(https://play\.google\.com[^"]+)"\<close>, and the same for the other two hosts\<close>

definition re_href_host :: "string \<Rightarrow> regex" where
  \<open>re_href_host host =
     Seq (Lit ''href="'')
       (Seq (Grp 1 (Seq (Lit (''https://'' @ host)) (Plus (Cls (none_of ''"''))))) (Lit ''"''))\<close>

text \<open>\<^verbatim>\<open>href="([^"]+)"[^>]*>\s*<img[^>]*Website\<close>, and the same with \<^verbatim>\<open>APK\<close>\<close>

definition re_href_badge :: "string \<Rightarrow> regex" where
  \<open>re_href_badge label =
     Seq (Lit ''href="'') (Seq (Grp 1 (Plus (Cls (none_of ''"'')))) (Seq (Lit ''"'')
       (Seq (Star (Cls (none_of ''>''))) (Seq (Lit ''>'') (Seq (Star (Cls py_isspace))
         (Seq (Lit ''<img'') (Seq (Star (Cls (none_of ''>''))) (Lit label))))))))\<close>

text \<open>\<^verbatim>\<open>images/[^/]+/(\d+)\.(png|jpg|jpeg|webp|gif)\<close>\<close>

definition re_screenshot :: regex where
  \<open>re_screenshot =
     Seq (Lit ''images/'') (Seq (Plus (Cls (none_of ''/''))) (Seq (Lit ''/'')
       (Seq (Grp 1 (Plus (Cls is_digit))) (Seq (Lit ''.'')
         (Grp 2 (Alt (Lit ''png'') (Alt (Lit ''jpg'') (Alt (Lit ''jpeg'')
            (Alt (Lit ''webp'') (Lit ''gif''))))))))))\<close>

text \<open>\<^verbatim>\<open><img src="([^"]+)"[^>]*alt="[^"]*"[^>]*width="100%"\<close>\<close>

definition re_banner :: regex where
  \<open>re_banner =
     Seq (Lit ''<img src="'') (Seq (Grp 1 (Plus (Cls (none_of ''"'')))) (Seq (Lit ''"'')
       (Seq (Star (Cls (none_of ''>''))) (Seq (Lit ''alt="'') (Seq (Star (Cls (none_of ''"'')))
         (Seq (Lit ''"'') (Seq (Star (Cls (none_of ''>''))) (Lit ''width="100%"''))))))))\<close>

text \<open>\<^verbatim>\<open><img src="([^"]+)"[^>]*alt="[^"]*logo"[^>]*height="64"\<close>\<close>

definition re_logo :: regex where
  \<open>re_logo =
     Seq (Lit ''<img src="'') (Seq (Grp 1 (Plus (Cls (none_of ''"'')))) (Seq (Lit ''"'')
       (Seq (Star (Cls (none_of ''>''))) (Seq (Lit ''alt="'') (Seq (Star (Cls (none_of ''"'')))
         (Seq (Lit ''logo"'') (Seq (Star (Cls (none_of ''>''))) (Lit ''height="64"''))))))))\<close>

text \<open>\<^verbatim>\<open>width="(\d+)"\<close>\<close>

definition re_width :: regex where
  \<open>re_width = Seq (Lit ''width="'') (Seq (Grp 1 (Plus (Cls is_digit))) (Lit ''"''))\<close>

definition known_categories :: "string list" where
  \<open>known_categories =
     [''Mobile App'', ''Website'', ''IoT'', ''Game'', ''AI/ML'', ''3D/AR/VR'', ''Other'']\<close>

text \<open>The body of the loop over the parts, one function for each extraction, in the order
  of the source. Each takes the part and the project built so far.\<close>

definition parse_title :: "string \<Rightarrow> project \<Rightarrow> project" where
  \<open>parse_title part p =
     (case re_search re_title part of
        Some m \<Rightarrow> (let t = py_strip (group m 1) in p\<lparr>proj_id := slug t, title := t\<rparr>)
      | None \<Rightarrow> p)\<close>

definition parse_categories :: "string \<Rightarrow> project \<Rightarrow> project" where
  \<open>parse_categories part p =
     (let category_matches = re_findall1 re_backtick part in
      p\<lparr>categories := filter (\<lambda>c. c \<in> set known_categories) category_matches\<rparr>)\<close>

definition parse_short :: "string \<Rightarrow> project \<Rightarrow> project" where
  \<open>parse_short part p =
     (case re_search re_bold part of
        Some m \<Rightarrow> p\<lparr>short_description := py_strip (group m 1)\<rparr>
      | None \<Rightarrow> p)\<close>

definition parse_long :: "string \<Rightarrow> project \<Rightarrow> project" where
  \<open>parse_long part p =
     (case re_search re_para part of
        Some m \<Rightarrow>
          (if \<not> str_contains (group m 0) ''<a href'' \<and> \<not> str_contains (group m 0) ''<img''
           then p\<lparr>long_description := py_strip (group m 1)\<rparr> else p)
      | None \<Rightarrow> p)\<close>

definition parse_tech :: "string \<Rightarrow> project \<Rightarrow> project" where
  \<open>parse_tech part p =
     (case re_search re_tech_section part of
        Some tech_section \<Rightarrow> p\<lparr>technologies := re_findall1 re_code (group tech_section 1)\<rparr>
      | None \<Rightarrow> p)\<close>

definition parse_features :: "string \<Rightarrow> project \<Rightarrow> project" where
  \<open>parse_features part p =
     (case re_search re_features_section part of
        Some features_section \<Rightarrow>
          p\<lparr>features := re_findall1 re_bullet (group features_section 1)\<rparr>
      | None \<Rightarrow> p)\<close>

definition parse_host_link :: "string \<Rightarrow> string \<Rightarrow> string \<Rightarrow> project \<Rightarrow> project" where
  \<open>parse_host_link host key part p =
     (if str_contains part host then
        (case re_search (re_href_host host) part of
           Some m \<Rightarrow> p\<lparr>links := (links p)(key \<mapsto> group m 1)\<rparr>
         | None \<Rightarrow> p)
      else p)\<close>

definition parse_badge_link :: "string \<Rightarrow> string \<Rightarrow> string \<Rightarrow> project \<Rightarrow> project" where
  \<open>parse_badge_link label key part p =
     (case re_search (re_href_badge label) part of
        Some m \<Rightarrow> p\<lparr>links := (links p)(key \<mapsto> group m 1)\<rparr>
      | None \<Rightarrow> p)\<close>

definition parse_links :: "string \<Rightarrow> project \<Rightarrow> project" where
  \<open>parse_links part p =
     parse_badge_link ''APK'' ''apk'' part
       (parse_badge_link ''Website'' ''website'' part
         (parse_host_link ''github.com'' ''github'' part
           (parse_host_link ''apps.apple.com'' ''appStore'' part
             (parse_host_link ''play.google.com'' ''playStore'' part p))))\<close>

definition add_screenshot :: "project \<Rightarrow> string \<times> string \<Rightarrow> project" where
  \<open>add_screenshot p e =
     (let name = ''screenshot_'' @ fst e @ ''.'' @ snd e in
      p\<lparr>screenshots := screenshots p @ [name],
        screenshots_local_paths := screenshots_local_paths p @ [name]\<rparr>)\<close>

definition parse_screenshots :: "string \<Rightarrow> project \<Rightarrow> project" where
  \<open>parse_screenshots part p =
     (let ss_matches = re_findall2 re_screenshot part in
      if ss_matches \<noteq> [] then foldl add_screenshot p ss_matches else p)\<close>

definition parse_banner :: "string \<Rightarrow> project \<Rightarrow> project" where
  \<open>parse_banner part p =
     (case re_search re_banner part of
        Some banner_match \<Rightarrow> p\<lparr>banner_image := group banner_match 1\<rparr>
      | None \<Rightarrow> p)\<close>

definition parse_logo :: "string \<Rightarrow> project \<Rightarrow> project" where
  \<open>parse_logo part p =
     (case re_search re_logo part of
        Some logo_match \<Rightarrow> p\<lparr>logo_url := group logo_match 1, show_logo := True\<rparr>
      | None \<Rightarrow> p)\<close>

definition parse_border :: "string \<Rightarrow> project \<Rightarrow> project" where
  \<open>parse_border part p =
     (if str_contains part ''border: 1px solid'' \<or> str_contains part ''border: 2px dashed'' then
        (if str_contains part ''border-radius: 12px''
         then p\<lparr>show_border := True, border_style := ''rounded''\<rparr>
         else if str_contains part ''dashed''
         then p\<lparr>show_border := True, border_style := ''dashed''\<rparr>
         else p\<lparr>show_border := True, border_style := ''square''\<rparr>)
      else p)\<close>

definition parse_layout :: "string \<Rightarrow> project \<Rightarrow> project" where
  \<open>parse_layout part p =
     (if str_contains part ''<table'' then p\<lparr>screenshot_layout := ''grid''\<rparr>
      else if str_contains part ''align="center"'' \<and> str_contains part ''<br>''
      then p\<lparr>screenshot_layout := ''vertical''\<rparr>
      else p\<lparr>screenshot_layout := ''horizontal''\<rparr>)\<close>

text \<open>The conversion sits in \<^verbatim>\<open>try: ... except: pass\<close>: a \<^verbatim>\<open>ValueError\<close> leaves the
  size as it was.\<close>

definition parse_size :: "string \<Rightarrow> project \<Rightarrow> project" where
  \<open>parse_size part p =
     (case re_search re_width part of
        Some size_match \<Rightarrow>
          (case py_int (group size_match 1) of
             Inr n \<Rightarrow> p\<lparr>screenshot_size := n\<rparr>
           | Inl err \<Rightarrow> p)
      | None \<Rightarrow> p)\<close>

definition parse_steps :: "(string \<Rightarrow> project \<Rightarrow> project) list" where
  "parse_steps =
     [parse_title, parse_categories, parse_short, parse_long, parse_tech, parse_features,
      parse_links, parse_screenshots, parse_banner, parse_logo, parse_border, parse_layout,
      parse_size]"

definition parse_part :: "string \<Rightarrow> project" where
  "parse_part part = foldl (\<lambda>p step. step part p) Project_init parse_steps"

text \<open>The loop of \<^verbatim>\<open>_parse_md\<close> over the parts: a part without \<^verbatim>\<open>"## "\<close> is skipped, and a
  project is appended only if its title is not empty.\<close>

fun parse_parts :: "string list \<Rightarrow> project list" where
  "parse_parts [] = []"
| "parse_parts (part # parts) =
     (if \<not> str_contains part ''## '' then parse_parts parts
      else (let p = parse_part part in
            if title p \<noteq> [] then p # parse_parts parts else parse_parts parts))"

definition parse_md :: "string \<Rightarrow> project list" where
  "parse_md content = parse_parts (re_split re_rule content)"

section \<open>Image resolution\<close>

text \<open>\<^verbatim>\<open>resolve_image_path\<close>, a closure inside the preview builder. It reads
  \<^verbatim>\<open>self.file_path\<close> (\<^verbatim>\<open>None\<close> until a file is opened or exported) and \<^verbatim>\<open>images_dir\<close>;
  \<open>script_dir\<close> stands for \<^verbatim>\<open>os.path.dirname(os.path.abspath(__file__))\<close>.\<close>

text \<open>\<^verbatim>\<open>(\d+)\.\w+$\<close>\<close>

definition re_numbered :: regex where
  \<open>re_numbered = Seq (Grp 1 (Plus (Cls is_digit))) (Seq (Lit ''.'') (Seq (Plus (Cls is_word)) Eol))\<close>

definition image_exts :: "string list" where
  \<open>image_exts = [''.jpg'', ''.jpeg'', ''.png'', ''.webp'', ''.gif'']\<close>

definition path_set :: "string option \<Rightarrow> bool" where
  "path_set file_path = (case file_path of None \<Rightarrow> False | Some f \<Rightarrow> f \<noteq> [])"

definition base_dir :: "os_path \<Rightarrow> string option \<Rightarrow> string \<Rightarrow> string" where
  "base_dir os file_path script_dir =
     (case file_path of
        Some f \<Rightarrow> if f \<noteq> [] then path_dirname os f else script_dir
      | None \<Rightarrow> script_dir)"

definition images_dir :: "os_path \<Rightarrow> string option \<Rightarrow> string \<Rightarrow> project \<Rightarrow> string" where
  \<open>images_dir os file_path script_dir p =
     (if proj_id p \<noteq> []
      then path_join os (path_join os (base_dir os file_path script_dir) ''images'') (proj_id p)
      else [])\<close>

text \<open>The loop over the extensions, which returns at the first file that exists.\<close>

fun probe_numbered :: "os_path \<Rightarrow> string \<Rightarrow> string \<Rightarrow> string list \<Rightarrow> string option" where
  "probe_numbered os dir num [] = None"
| "probe_numbered os dir num (ext # exts) =
     (let img_path = path_join os dir (num @ ext) in
      if path_exists os img_path then Some img_path else probe_numbered os dir num exts)"

definition resolve_image_path ::
  "os_path \<Rightarrow> string option \<Rightarrow> string \<Rightarrow> string \<Rightarrow> string" where
  "resolve_image_path os file_path imgdir path =
     (if path = [] then []
      else if path_isabs os path \<and> path_exists os path then path
      else if path_set file_path \<and>
              path_exists os (path_join os (path_dirname os (the file_path)) path)
      then path_join os (path_dirname os (the file_path)) path
      else if imgdir \<noteq> [] then
        (let basename = path_basename os path;
             img_path = path_join os imgdir basename
         in if path_exists os img_path then img_path
            else (case re_search re_numbered basename of
                    Some num_match \<Rightarrow>
                      (case probe_numbered os imgdir (group num_match 1) image_exts of
                         Some found \<Rightarrow> found
                       | None \<Rightarrow> [])
                  | None \<Rightarrow> []))
      else [])"

section \<open>A concrete platform for the examples\<close>

text \<open>The rules of \<^verbatim>\<open>posixpath\<close> over a file system given as the list of the paths that
  exist. The theorems below hold for every \<open>os_path\<close>; this one serves the examples.\<close>

definition posix_isabs :: "string \<Rightarrow> bool" where
  "posix_isabs p = prefix ''/'' p"

definition posix_join :: "string \<Rightarrow> string \<Rightarrow> string" where
  "posix_join a b =
     (if prefix ''/'' b then b
      else if a = [] \<or> suffix ''/'' a then a @ b
      else a @ ''/'' @ b)"

definition posix_basename :: "string \<Rightarrow> string" where
  "posix_basename p = rev (takeWhile (\<lambda>c. c \<noteq> CHR ''/'') (rev p))"

definition posix_dirname :: "string \<Rightarrow> string" where
  "posix_dirname p =
     (let head = rev (dropWhile (\<lambda>c. c \<noteq> CHR ''/'') (rev p)) in
      if head \<noteq> [] \<and> filter (\<lambda>c. c \<noteq> CHR ''/'') head \<noteq> []
      then rev (dropWhile (\<lambda>c. c = CHR ''/'') (rev head)) else head)"

definition posix_splitext :: "string \<Rightarrow> string \<times> string" where
  "posix_splitext p =
     (let base = posix_basename p;
          ext = CHR ''.'' # rev (takeWhile (\<lambda>c. c \<noteq> CHR ''.'') (rev base));
          stem = take (length base - length ext) base
      in if CHR ''.'' \<in> set base \<and> filter (\<lambda>c. c \<noteq> CHR ''.'') stem \<noteq> []
         then (take (length p - length ext) p, ext) else (p, []))"

definition posix :: "string list \<Rightarrow> os_path" where
  "posix files = \<lparr> path_exists = (\<lambda>p. p \<in> set files), path_isabs = posix_isabs,
     path_join = posix_join, path_dirname = posix_dirname, path_basename = posix_basename,
     path_splitext = posix_splitext \<rparr>"

section \<open>Notions used in the statements\<close>

text \<open>The link the decoder finds for a host and for a badge label, and the store into the
  mapping that follows when it finds one.\<close>

definition host_link :: "string \<Rightarrow> string \<Rightarrow> string option" where
  "host_link host part =
     (if str_contains part host
      then map_option (\<lambda>m. group m 1) (re_search (re_href_host host) part) else None)"

definition badge_link :: "string \<Rightarrow> string \<Rightarrow> string option" where
  "badge_link label part =
     map_option (\<lambda>m. group m 1) (re_search (re_href_badge label) part)"

definition upd_link ::
  "string \<Rightarrow> string option \<Rightarrow> (string \<rightharpoonup> string) \<Rightarrow> (string \<rightharpoonup> string)" where
  "upd_link key v m = (case v of Some u \<Rightarrow> m(key \<mapsto> u) | None \<Rightarrow> m)"

text \<open>A stretch of text \<open>xs\<close>, followed by \<open>ys\<close>, at no position of which the literal \<open>l\<close>
  starts; and the number of positions of a text at which a literal starts.\<close>

fun lit_free :: "string \<Rightarrow> string \<Rightarrow> string \<Rightarrow> bool" where
  "lit_free l [] ys = True"
| "lit_free l (x # xs) ys = (\<not> prefix l (x # xs @ ys) \<and> lit_free l xs ys)"

fun count_sub :: "string \<Rightarrow> string \<Rightarrow> nat" where
  "count_sub sub [] = 0"
| "count_sub sub (c # cs) = (if prefix sub (c # cs) then 1 else 0) + count_sub sub cs"

text \<open>The strings that the encoder copies into the text of a project: its text fields, its
  links, and the extensions that \<^verbatim>\<open>os.path.splitext\<close> returns for its image paths.\<close>

definition interpolated :: "os_path \<Rightarrow> project \<Rightarrow> string list" where
  "interpolated os p =
     [title p, short_description p, long_description p, logo_url p, banner_image p,
      proj_id p, theme_color p] @
     categories p @ technologies p @ features p @
     map (links_get (links p)) link_keys @
     map (\<lambda>path. snd (path_splitext os path)) (logo_url p # banner_image p # screenshots p)"

text \<open>The lines of the rows of the screenshot table, row \<open>k\<close> starting at screenshot
  \<open>2k\<close>.\<close>

definition grid_rows :: "os_path \<Rightarrow> project \<Rightarrow> string list" where
  "grid_rows os p =
     concat (map (\<lambda>k. grid_row os p (py_enumerate (screenshots p) 1) (2 * k))
               [0..<(length (screenshots p) + 1) div 2])"


section \<open>Inputs of the examples\<close>

definition heading_only :: string where
  \<open>heading_only = ''## A''\<close>

definition github_block :: string where
  \<open>github_block = ''## A\<newline><a href="https://github.com/x">''\<close>

definition span_block :: string where
  \<open>span_block = ''## T\<newline>`Mobile App` `Nonexistent`''\<close>

definition partial_doc :: string where
  \<open>partial_doc = ''x ## \<newline>---\<newline>## A''\<close>

definition untitled_block :: string where
  \<open>untitled_block = ''x ## ''\<close>

definition tr_sample :: project where
  "tr_sample = Project_init\<lparr>proj_id := ''g'', title := ''G'', long_description := ''<tr>'',
     screenshot_layout := ''grid'', screenshots := [''a.png'']\<rparr>"

definition silent_logo :: project where
  "silent_logo = Project_init\<lparr>title := ''A'', show_logo := False\<rparr>"

text \<open>The candidates of image resolution as claim C7 lists them, and the first of them
  that exists.\<close>

definition resolve_candidates :: "os_path \<Rightarrow> string option \<Rightarrow> string \<Rightarrow> string \<Rightarrow> string list" where
  "resolve_candidates os file_path imgdir path =
     (if path_isabs os path then [path] else []) @
     (if path_set file_path then [path_join os (path_dirname os (the file_path)) path] else []) @
     (if imgdir \<noteq> [] then
        path_join os imgdir (path_basename os path) #
        (case re_search re_numbered (path_basename os path) of
           Some m \<Rightarrow> map (\<lambda>ext. path_join os imgdir (group m 1 @ ext)) image_exts
         | None \<Rightarrow> [])
      else [])"

definition first_existing :: "os_path \<Rightarrow> string list \<Rightarrow> string" where
  "first_existing os candidates =
     (case find (path_exists os) candidates of Some found \<Rightarrow> found | None \<Rightarrow> [])"

definition demo_project :: project where
  "demo_project = Project_init\<lparr>proj_id := ''demo'', title := ''Demo''\<rparr>"

definition demo_files :: "string list" where
  "demo_files = [''/docs/README.md'', ''/docs/images/demo/3.webp'', ''/docs/images/demo/3.gif'']"

definition grid_sample :: project where
  "grid_sample = Project_init\<lparr>proj_id := ''g'', title := ''G'', screenshot_layout := ''grid'',
     screenshots := [''a.png'', ''b.jpg'', ''c'']\<rparr>"

section \<open>Text as lines\<close>

text \<open>The text of a list of lines, each followed by a newline; a line in which no rule
  marker can start; and the parts of the documents used in the examples.\<close>

definition lines_text :: "string list \<Rightarrow> string" where
  \<open>lines_text ls = concat (map (\<lambda>l. l @ ''\<newline>'') ls)\<close>

definition line_ok :: "string \<Rightarrow> bool" where
  \<open>line_ok l = (CHR ''\<newline>'' \<notin> set l \<and> \<not> str_contains l ''<hr>'' \<and> l \<noteq> ''---'')\<close>

definition front_lines :: "string list" where
  "front_lines = take 15 header_lines"

definition front_matter :: string where
  "front_matter = lines_text front_lines"

definition single_project :: project where
  "single_project = Project_init\<lparr>title := ''A''\<rparr>"

definition today_sample :: string where
  "today_sample = ''November 03, 2026''"

definition toc_part_lines :: "string list" where
  \<open>toc_part_lines =
     [[], ''<div align="center">'', [], ''## '' @ clipboard_emoji @ '' Contents'', [],
      ''| # | Project | Categories |'', ''|:---:|:----------|:------------|'',
      ''| 1 | [A](#a) | '' @ em_dash @ '' |'', [], ''</div>'']\<close>

definition project_part_lines :: "string list" where
  \<open>project_part_lines = [[], ''<div align="center">'', [], ''## A'', [], ''</div>'', []]\<close>

definition footer_part_lines :: "string list" where
  \<open>footer_part_lines =
     [[], ''<div align="center">'', [], ''<sub>Last updated: November 03, 2026</sub>'', []]\<close>

section \<open>Facts about the matcher\<close>

declare rmatch.simps [simp del] re_finditer.simps [simp del] re_split_from.simps [simp del]
  re_sub.simps [simp del] str_of_nat.simps [simp del] py_range.simps [simp del]

lemma match_here_Cls:
  "match_here (Cls P) s =
     (case s of [] \<Rightarrow> None | c # cs \<Rightarrow> if P c then Some (([c], []), cs) else None)"
  by (simp add: match_here_def rmatch.simps split: list.splits)

lemma re_sub_Cls: "re_sub (Cls P) [] s = filter (\<lambda>c. \<not> P c) s"
proof (induction s)
  case Nil
  show ?case by (subst re_sub.simps) (simp add: match_here_Cls)
next
  case (Cons c cs)
  show ?case by (subst re_sub.simps) (simp add: match_here_Cls Cons)
qed

section \<open>The slug rule\<close>

lemma slug_filter:
  "slug t = filter slug_keep (py_replace_char (CHR '' '') (CHR ''-'') (py_lower t))"
  by (simp add: slug_def re_slug_def re_sub_Cls)

lemma slug_keep_lower: "slug_keep c \<Longrightarrow> py_lower_char c = c"
  unfolding slug_keep_def py_lower_char_def ascii_lower_def ascii_digits_def ascii_upper_def
    latin1_upper_def latin1_lower_def
  by (elim disjE | simp)+

lemma slug_keep_not_space: "slug_keep c \<Longrightarrow> c \<noteq> CHR '' ''"
  unfolding slug_keep_def ascii_lower_def ascii_digits_def by auto

lemma slug_fixed: "\<forall>c \<in> set s. slug_keep c \<Longrightarrow> slug s = s"
  by (induction s)
     (auto simp: slug_filter py_lower_def py_replace_char_def slug_keep_lower
        slug_keep_not_space)

text \<open>
  Claim C6. The slug of any string is defined (\<open>slug\<close> is a total function: the
  substitution loop of \<open>re_sub\<close> terminates on every input), it consists of characters
  of \<^verbatim>\<open>[a-z0-9-]\<close> only, and deriving the slug of a slug changes nothing.
\<close>

theorem slug_idempotent:
  "set (slug s) \<subseteq> set (ascii_lower @ ascii_digits @ ''-'') \<and> slug (slug s) = slug s"
proof
  show "set (slug s) \<subseteq> set (ascii_lower @ ascii_digits @ ''-'')"
    by (auto simp: slug_filter slug_keep_def)
  have "\<forall>c \<in> set (slug s). slug_keep c" by (simp add: slug_filter)
  then show "slug (slug s) = slug s" by (rule slug_fixed)
qed

theorem slug_idempotent_witness:
  "slug ''Hello World! 3D/AR'' = ''hello-world-3dar'' \<and>
   slug (slug ''Hello World! 3D/AR'') = ''hello-world-3dar''"
proof -
  have e: "slug ''Hello World! 3D/AR'' = ''hello-world-3dar''" by code_simp
  with slug_idempotent [of "''Hello World! 3D/AR''"] show ?thesis by simp
qed

section \<open>The decoder, step by step\<close>

text \<open>Each extraction changes only its own fields; the project decoded from a part is
  \<open>Project_init\<close> with those fields set.\<close>

lemma parse_title_upd:
  "parse_title part p = p\<lparr>
     proj_id := (case re_search re_title part of
                   Some m \<Rightarrow> slug (py_strip (group m 1)) | None \<Rightarrow> proj_id p),
     title := (case re_search re_title part of
                 Some m \<Rightarrow> py_strip (group m 1) | None \<Rightarrow> title p)\<rparr>"
  by (simp add: parse_title_def Let_def split: option.splits)

lemma parse_short_upd:
  "parse_short part p = p\<lparr>short_description :=
     (case re_search re_bold part of
        Some m \<Rightarrow> py_strip (group m 1) | None \<Rightarrow> short_description p)\<rparr>"
  by (simp add: parse_short_def split: option.splits)

lemma parse_long_upd:
  "parse_long part p = p\<lparr>long_description :=
     (case re_search re_para part of
        Some m \<Rightarrow>
          if \<not> str_contains (group m 0) ''<a href'' \<and> \<not> str_contains (group m 0) ''<img''
          then py_strip (group m 1) else long_description p
      | None \<Rightarrow> long_description p)\<rparr>"
  by (simp add: parse_long_def split: option.splits)

lemma parse_tech_upd:
  "parse_tech part p = p\<lparr>technologies :=
     (case re_search re_tech_section part of
        Some m \<Rightarrow> re_findall1 re_code (group m 1) | None \<Rightarrow> technologies p)\<rparr>"
  by (simp add: parse_tech_def split: option.splits)

lemma parse_features_upd:
  "parse_features part p = p\<lparr>features :=
     (case re_search re_features_section part of
        Some m \<Rightarrow> re_findall1 re_bullet (group m 1) | None \<Rightarrow> features p)\<rparr>"
  by (simp add: parse_features_def split: option.splits)

lemma parse_host_link_upd:
  "parse_host_link host key part p = p\<lparr>links := upd_link key (host_link host part) (links p)\<rparr>"
  by (simp add: parse_host_link_def host_link_def upd_link_def split: option.splits)

lemma parse_badge_link_upd:
  "parse_badge_link label key part p = p\<lparr>links := upd_link key (badge_link label part) (links p)\<rparr>"
  by (simp add: parse_badge_link_def badge_link_def upd_link_def split: option.splits)

lemma add_screenshots_upd:
  "foldl add_screenshot p es = p\<lparr>
     screenshots := screenshots p @ map (\<lambda>e. ''screenshot_'' @ fst e @ ''.'' @ snd e) es,
     screenshots_local_paths :=
       screenshots_local_paths p @ map (\<lambda>e. ''screenshot_'' @ fst e @ ''.'' @ snd e) es\<rparr>"
  by (induction es arbitrary: p) (simp_all add: add_screenshot_def Let_def)

lemma parse_screenshots_upd:
  "parse_screenshots part p = p\<lparr>
     screenshots := screenshots p @
        map (\<lambda>e. ''screenshot_'' @ fst e @ ''.'' @ snd e) (re_findall2 re_screenshot part),
     screenshots_local_paths := screenshots_local_paths p @
        map (\<lambda>e. ''screenshot_'' @ fst e @ ''.'' @ snd e) (re_findall2 re_screenshot part)\<rparr>"
  by (simp add: parse_screenshots_def Let_def add_screenshots_upd)

lemma parse_banner_upd:
  "parse_banner part p = p\<lparr>banner_image :=
     (case re_search re_banner part of Some m \<Rightarrow> group m 1 | None \<Rightarrow> banner_image p)\<rparr>"
  by (simp add: parse_banner_def split: option.splits)

lemma parse_logo_upd:
  "parse_logo part p = p\<lparr>
     logo_url := (case re_search re_logo part of Some m \<Rightarrow> group m 1 | None \<Rightarrow> logo_url p),
     show_logo := (re_search re_logo part \<noteq> None \<or> show_logo p)\<rparr>"
  by (simp add: parse_logo_def split: option.splits)

lemma parse_border_upd:
  "parse_border part p = p\<lparr>
     show_border :=
       (if str_contains part ''border: 1px solid'' \<or> str_contains part ''border: 2px dashed''
        then True else show_border p),
     border_style :=
       (if str_contains part ''border: 1px solid'' \<or> str_contains part ''border: 2px dashed''
        then (if str_contains part ''border-radius: 12px'' then ''rounded''
              else if str_contains part ''dashed'' then ''dashed'' else ''square'')
        else border_style p)\<rparr>"
  by (simp add: parse_border_def)

lemma parse_layout_upd:
  \<open>parse_layout part p = p\<lparr>screenshot_layout :=
     (if str_contains part ''<table'' then ''grid''
      else if str_contains part ''align="center"'' \<and> str_contains part ''<br>''
      then ''vertical'' else ''horizontal'')\<rparr>\<close>
  by (simp add: parse_layout_def)

lemma parse_size_upd:
  "parse_size part p = p\<lparr>screenshot_size :=
     (case re_search re_width part of
        Some m \<Rightarrow> (case py_int (group m 1) of Inr n \<Rightarrow> n | Inl err \<Rightarrow> screenshot_size p)
      | None \<Rightarrow> screenshot_size p)\<rparr>"
  by (simp add: parse_size_def split: option.splits sum.splits)

lemmas parse_upds = parse_title_upd parse_short_upd parse_long_upd parse_tech_upd
  parse_features_upd parse_host_link_upd parse_badge_link_upd parse_screenshots_upd
  parse_banner_upd parse_logo_upd parse_border_upd parse_layout_upd parse_size_upd

lemma parse_part_show_logo: "show_logo (parse_part part)"
  by (simp add: parse_part_def parse_steps_def parse_upds parse_categories_def parse_links_def
      Project_init_def split: option.splits)

lemma parse_part_title:
  "title (parse_part part) =
     (case re_search re_title part of Some m \<Rightarrow> py_strip (group m 1) | None \<Rightarrow> [])"
  by (simp add: parse_part_def parse_steps_def parse_upds parse_categories_def parse_links_def
      Project_init_def split: option.splits)

lemma parse_part_categories:
  "categories (parse_part part) =
     filter (\<lambda>c. c \<in> set known_categories) (re_findall1 re_backtick part)"
  by (simp add: parse_part_def parse_steps_def parse_upds parse_categories_def parse_links_def
      Project_init_def)

lemma parse_part_links:
  "links (parse_part part) =
     upd_link ''apk'' (badge_link ''APK'' part)
       (upd_link ''website'' (badge_link ''Website'' part)
         (upd_link ''github'' (host_link ''github.com'' part)
           (upd_link ''appStore'' (host_link ''apps.apple.com'' part)
             (upd_link ''playStore'' (host_link ''play.google.com'' part) Map.empty))))"
  by (simp add: parse_part_def parse_steps_def parse_upds parse_categories_def parse_links_def
      Project_init_def)

lemma parse_parts_set: "set (parse_parts parts) \<subseteq> parse_part ` set parts"
  by (induction parts) (auto simp: Let_def)

lemma parse_parts_filter:
  "parse_parts parts =
     filter (\<lambda>p. title p \<noteq> []) (map parse_part (filter (\<lambda>part. str_contains part ''## '') parts))"
  by (induction parts) (auto simp: Let_def)

lemma dom_upd_link: "dom m \<subseteq> S \<Longrightarrow> key \<in> S \<Longrightarrow> dom (upd_link key v m) \<subseteq> S"
  by (auto simp: upd_link_def split: option.splits)

lemma parse_part_links_dom: "dom (links (parse_part part)) \<subseteq> set link_keys"
  unfolding parse_part_links
  by (intro dom_upd_link) (simp_all add: link_keys_def)

lemma parse_md_set: "set (parse_md content) \<subseteq> range parse_part"
  using parse_parts_set [of "re_split re_rule content"] by (auto simp: parse_md_def)


lemma parse_part_eq:
  \<open>parse_part part = \<lparr>
     proj_id = (case re_search re_title part of
                  Some m \<Rightarrow> slug (py_strip (group m 1)) | None \<Rightarrow> []),
     title = (case re_search re_title part of Some m \<Rightarrow> py_strip (group m 1) | None \<Rightarrow> []),
     short_description =
       (case re_search re_bold part of Some m \<Rightarrow> py_strip (group m 1) | None \<Rightarrow> []),
     long_description =
       (case re_search re_para part of
          Some m \<Rightarrow>
            if \<not> str_contains (group m 0) ''<a href'' \<and> \<not> str_contains (group m 0) ''<img''
            then py_strip (group m 1) else []
        | None \<Rightarrow> []),
     categories = filter (\<lambda>c. c \<in> set known_categories) (re_findall1 re_backtick part),
     banner_image = (case re_search re_banner part of Some m \<Rightarrow> group m 1 | None \<Rightarrow> []),
     banner_local_path = [],
     technologies =
       (case re_search re_tech_section part of
          Some m \<Rightarrow> re_findall1 re_code (group m 1) | None \<Rightarrow> []),
     features =
       (case re_search re_features_section part of
          Some m \<Rightarrow> re_findall1 re_bullet (group m 1) | None \<Rightarrow> []),
     links =
       upd_link ''apk'' (badge_link ''APK'' part)
         (upd_link ''website'' (badge_link ''Website'' part)
           (upd_link ''github'' (host_link ''github.com'' part)
             (upd_link ''appStore'' (host_link ''apps.apple.com'' part)
               (upd_link ''playStore'' (host_link ''play.google.com'' part) Map.empty)))),
     screenshots =
       map (\<lambda>e. ''screenshot_'' @ fst e @ ''.'' @ snd e) (re_findall2 re_screenshot part),
     screenshots_local_paths =
       map (\<lambda>e. ''screenshot_'' @ fst e @ ''.'' @ snd e) (re_findall2 re_screenshot part),
     show_logo = True,
     logo_url = (case re_search re_logo part of Some m \<Rightarrow> group m 1 | None \<Rightarrow> []),
     logo_position = ''center'',
     show_border =
       (str_contains part ''border: 1px solid'' \<or> str_contains part ''border: 2px dashed''),
     border_style =
       (if str_contains part ''border: 1px solid'' \<or> str_contains part ''border: 2px dashed''
        then (if str_contains part ''border-radius: 12px'' then ''rounded''
              else if str_contains part ''dashed'' then ''dashed'' else ''square'')
        else ''rounded''),
     theme_color = ''#000000'',
     screenshot_layout =
       (if str_contains part ''<table'' then ''grid''
        else if str_contains part ''align="center"'' \<and> str_contains part ''<br>''
        then ''vertical'' else ''horizontal''),
     screenshot_size =
       (case re_search re_width part of
          Some m \<Rightarrow> (case py_int (group m 1) of Inr n \<Rightarrow> n | Inl err \<Rightarrow> 200)
        | None \<Rightarrow> 200) \<rparr>\<close>
  by (simp add: parse_part_def parse_steps_def parse_upds parse_categories_def parse_links_def
      Project_init_def cong: option.case_cong sum.case_cong if_cong)

lemma parse_md_filter:
  "parse_md content =
     filter (\<lambda>p. title p \<noteq> [])
       (map parse_part (filter (\<lambda>part. str_contains part ''## '') (re_split re_rule content)))"
  by (simp add: parse_md_def parse_parts_filter)

lemma parse_parts_single:
  "str_contains part ''## '' \<Longrightarrow> title (parse_part part) \<noteq> [] \<Longrightarrow>
   parse_parts [part] = [parse_part part]"
  by (simp add: Let_def)


lemma parse_md_heading_only: "parse_md heading_only = [parse_part heading_only]"
proof -
  have 1: "re_split re_rule heading_only = [heading_only]" by code_simp
  have 2: "str_contains heading_only ''## ''" by code_simp
  have 3: "title (parse_part heading_only) = ''A''" by code_simp
  show ?thesis by (simp only: parse_md_def 1 parse_parts_single [OF 2] 3 list.simps not_False_eq_True)
qed

section \<open>The logo flag of a decoded project\<close>

text \<open>
  Claim C10. Every project that the decoder returns has \<open>show_logo = True\<close>: the
  constructor sets it and the decoder only ever stores \<open>True\<close> into it. So a project with
  \<open>show_logo = False\<close> never decodes, from its own encoding, to a project with the same flag.
\<close>

theorem decoded_show_logo:
  "(\<forall>p' \<in> set (parse_md content). show_logo p') \<and>
   (\<not> show_logo p \<longrightarrow>
      (\<forall>p' \<in> set (parse_md (generate_project_md os p)). show_logo p' \<noteq> show_logo p))"
proof -
  have "\<forall>p' \<in> set (parse_md c). show_logo p'" for c
    using parse_md_set [of c] by (auto simp: parse_part_eq)
  then show ?thesis by blast
qed

lemma silent_logo_md:
  \<open>generate_project_md (posix []) silent_logo = ''<div align="center">\<newline>\<newline>## A\<newline>\<newline></div>\<newline>''\<close>
  by code_simp

theorem decoded_show_logo_witness:
  "\<not> show_logo silent_logo \<and>
   map show_logo (parse_md (generate_project_md (posix []) silent_logo)) = [True]"
proof -
  let ?md = "generate_project_md (posix []) silent_logo"
  have 1: "re_split re_rule ?md = [?md]" unfolding silent_logo_md by code_simp
  have 2: "str_contains ?md ''## ''" unfolding silent_logo_md by code_simp
  have 3: "title (parse_part ?md) = ''A''" unfolding silent_logo_md by code_simp
  have 4: "parse_md ?md = [parse_part ?md]"
    by (simp only: parse_md_def 1 parse_parts_single [OF 2] 3 list.simps not_False_eq_True)
  have 5: "\<not> show_logo silent_logo" by (simp add: silent_logo_def)
  from decoded_show_logo [of ?md silent_logo "posix []"] 4 5 show ?thesis by simp
qed

section \<open>The links of a decoded project\<close>

lemma parse_part_links_at:
  "links (parse_part part) key =
     (if key = ''apk'' then badge_link ''APK'' part
      else if key = ''website'' then badge_link ''Website'' part
      else if key = ''github'' then host_link ''github.com'' part
      else if key = ''appStore'' then host_link ''apps.apple.com'' part
      else if key = ''playStore'' then host_link ''play.google.com'' part
      else None)"
  by (simp add: parse_part_links upd_link_def split: option.splits)

lemma parse_md_image: "set (parse_md content) \<subseteq> parse_part ` set (re_split re_rule content)"
  using parse_parts_set [of "re_split re_rule content"] by (simp add: parse_md_def)

lemma links_absent_text:
  "generate_project_md os (p\<lparr>links := (links p)(key \<mapsto> [])\<rparr>) =
   generate_project_md os (p\<lparr>links := (links p)(key := None)\<rparr>)"
proof -
  let ?a = "p\<lparr>links := (links p)(key \<mapsto> [])\<rparr>" and ?b = "p\<lparr>links := (links p)(key := None)\<rparr>"
  have g: "links_get (links ?a) k = links_get (links ?b) k" for k
    by (simp add: links_get_def)
  have "link_badges ?a = link_badges ?b"
    unfolding link_badges_def Let_def g by simp
  then have l: "link_lines ?a = link_lines ?b" by (simp add: link_lines_def)
  have "grid_row os ?a sl i = grid_row os ?b sl i" for sl i
    by (simp add: grid_row_def grid_cell_def screenshot_img_def Let_def)
  then have r: "grid_row os ?a = grid_row os ?b" by (intro ext)
  have s: "screenshot_lines os ?a = screenshot_lines os ?b"
    by (simp add: screenshot_lines_def grid_lines_def r screenshot_img_def Let_def)
  have c: "content_lines os ?a = content_lines os ?b"
    unfolding content_lines_def l s
    by (simp add: logo_lines_def title_lines_def category_lines_def banner_lines_def
        description_lines_def tech_lines_def feature_lines_def)
  have b: "border_css ?a = border_css ?b" by (simp add: border_css_def)
  have sb: "show_border ?a = show_border ?b" by simp
  show ?thesis
    unfolding generate_project_md_def generate_project_lines_def c b sb by (rule refl)
qed

text \<open>
  Claim C3 says that the links mapping of every project, decoded ones included, holds all
  five keys. The constructor stores an empty mapping and the decoder adds a key only where
  its pattern matches: the project decoded from \<^verbatim>\<open>## A\<close> has no key at all.
\<close>

theorem decoded_links_counterexample:
  "parse_part heading_only \<in> set (parse_md heading_only) \<and>
   \<not> set link_keys \<subseteq> dom (links (parse_part heading_only)) \<and>
   \<not> set link_keys \<subseteq> dom (links Project_init)"
proof -
  have 1: "links (parse_part heading_only) ''playStore'' = None" by code_simp
  have 2: "''playStore'' \<in> set link_keys" by (simp add: link_keys_def)
  have 3: "links Project_init ''playStore'' = None" by (simp add: Project_init_def)
  from 1 2 3 show ?thesis by (auto simp: parse_md_heading_only dom_def)
qed

text \<open>
  Claim C3, amended. The links mapping of a new project is empty. The mapping decoded from a
  block holds each of the five keys exactly where the test and the pattern of that key found
  a link, with that link as its value, and it holds no other key; every project that the
  decoder returns is decoded from one of the blocks of the text, so its keys are among the
  five. A missing key stands for an absent link as an empty string does: \<open>links_get\<close> reads
  both as the empty string, and the encoder emits the same text for both.
\<close>

theorem decoded_links_keys:
  "links Project_init = Map.empty \<and>
   links (parse_part part) ''playStore'' = host_link ''play.google.com'' part \<and>
   links (parse_part part) ''appStore'' = host_link ''apps.apple.com'' part \<and>
   links (parse_part part) ''github'' = host_link ''github.com'' part \<and>
   links (parse_part part) ''website'' = badge_link ''Website'' part \<and>
   links (parse_part part) ''apk'' = badge_link ''APK'' part \<and>
   (\<forall>k. k \<notin> set link_keys \<longrightarrow> links (parse_part part) k = None) \<and>
   (\<forall>q \<in> set (parse_md content).
      q \<in> parse_part ` set (re_split re_rule content) \<and> dom (links q) \<subseteq> set link_keys) \<and>
   links_get Map.empty key = [] \<and>
   links_get (m(key \<mapsto> [])) key = links_get (m(key := None)) key \<and>
   generate_project_md os (p\<lparr>links := (links p)(key \<mapsto> [])\<rparr>) =
     generate_project_md os (p\<lparr>links := (links p)(key := None)\<rparr>)"
proof -
  have "\<forall>q \<in> set (parse_md content).
      q \<in> parse_part ` set (re_split re_rule content) \<and> dom (links q) \<subseteq> set link_keys"
    using parse_md_image [of content] parse_part_links_dom by blast
  then show ?thesis
    by (simp add: Project_init_def parse_part_links_at link_keys_def links_get_def
        links_absent_text)
qed

theorem decoded_links_keys_witness:
  "parse_md github_block = [parse_part github_block] \<and>
   dom (links (parse_part github_block)) \<subseteq> set link_keys \<and>
   links (parse_part github_block) ''github'' = Some ''https://github.com/x'' \<and>
   links (parse_part github_block) ''playStore'' = None \<and>
   ''homepage'' \<notin> set link_keys \<and> links (parse_part github_block) ''homepage'' = None"
proof -
  have 1: "re_split re_rule github_block = [github_block]" by code_simp
  have 2: "str_contains github_block ''## ''" by code_simp
  have 3: "title (parse_part github_block) = ''A''" by code_simp
  have 4: "parse_md github_block = [parse_part github_block]"
    by (simp only: parse_md_def 1 parse_parts_single [OF 2] 3 list.simps not_False_eq_True)
  have 5: "host_link ''github.com'' github_block = Some ''https://github.com/x''" by code_simp
  have 6: "host_link ''play.google.com'' github_block = None" by code_simp
  have 7: "''homepage'' \<notin> set link_keys" by (simp add: link_keys_def)
  from decoded_links_keys [of github_block github_block] 4 5 6 7 show ?thesis by simp
qed

section \<open>The categories of a decoded project\<close>

text \<open>
  Claim C8. The categories of a decoded block are exactly the contents of its inline code
  spans that belong to the known vocabulary, in their order; no other value is ever a
  category. The witness is the block with the spans \<^verbatim>\<open>`Mobile App`\<close> and
  \<^verbatim>\<open>`Nonexistent`\<close>, which decodes to the single category \<^verbatim>\<open>Mobile App\<close>.
\<close>

theorem decoded_categories:
  "categories (parse_part part) =
     filter (\<lambda>c. c \<in> set known_categories) (re_findall1 re_backtick part) \<and>
   set (categories (parse_part part)) \<subseteq> set known_categories \<and>
   (\<forall>p \<in> set (parse_md content). set (categories p) \<subseteq> set known_categories)"
  using parse_md_set [of content] by (auto simp: parse_part_eq)

theorem decoded_categories_witness:
  "re_findall1 re_backtick span_block = [''Mobile App'', ''Nonexistent''] \<and>
   categories (parse_part span_block) = [''Mobile App''] \<and>
   map categories (parse_md span_block) = [[''Mobile App'']]"
proof -
  have 0: "re_findall1 re_backtick span_block = [''Mobile App'', ''Nonexistent'']" by code_simp
  have 1: "re_split re_rule span_block = [span_block]" by code_simp
  have 2: "str_contains span_block ''## ''" by code_simp
  have 3: "title (parse_part span_block) = ''T''" by code_simp
  have 4: "parse_md span_block = [parse_part span_block]"
    by (simp only: parse_md_def 1 parse_parts_single [OF 2] 3 list.simps not_False_eq_True)
  have 5: "categories (parse_part span_block) = [''Mobile App'']"
    using decoded_categories [of span_block span_block]
    by (simp add: 0 known_categories_def)
  from 0 4 5 show ?thesis by simp
qed

section \<open>Decoding is best effort\<close>

text \<open>
  Claim C5. The decoder is a total function of its input text: every loop of the model
  terminates, a failed search is the value \<open>None\<close> that the source tests before it reads a
  group, and the one conversion that can raise, \<open>py_int\<close>, sits in a handler. Each
  extraction that finds nothing leaves its field as the constructor set it: the title and
  the id, the categories, the two descriptions, the technologies, the features, each of the
  five links on its own, the screenshots, the banner, the logo, the border, the layout and
  the size; the fields that no extraction writes stay as the constructor set them. The
  result holds exactly the decoded parts whose title is not empty, the others being dropped
  without an error. In the example the text has two blocks that hold \<^verbatim>\<open>## \<close>: the first
  has no title and is dropped, the second is returned.
\<close>

theorem decoder_best_effort:
  \<open>parse_md content =
     filter (\<lambda>p. title p \<noteq> [])
       (map parse_part (filter (\<lambda>part. str_contains part ''## '') (re_split re_rule content))) \<and>
   (re_search re_title part = None \<longrightarrow>
      title (parse_part part) = title Project_init \<and>
      proj_id (parse_part part) = proj_id Project_init) \<and>
   (re_findall1 re_backtick part = [] \<longrightarrow>
      categories (parse_part part) = categories Project_init) \<and>
   (re_search re_bold part = None \<longrightarrow>
      short_description (parse_part part) = short_description Project_init) \<and>
   (re_search re_para part = None \<longrightarrow>
      long_description (parse_part part) = long_description Project_init) \<and>
   (re_search re_tech_section part = None \<longrightarrow>
      technologies (parse_part part) = technologies Project_init) \<and>
   (re_search re_features_section part = None \<longrightarrow>
      features (parse_part part) = features Project_init) \<and>
   (\<not> str_contains part ''play.google.com'' \<or> re_search (re_href_host ''play.google.com'') part = None \<longrightarrow>
      links (parse_part part) ''playStore'' = links Project_init ''playStore'') \<and>
   (\<not> str_contains part ''apps.apple.com'' \<or> re_search (re_href_host ''apps.apple.com'') part = None \<longrightarrow>
      links (parse_part part) ''appStore'' = links Project_init ''appStore'') \<and>
   (\<not> str_contains part ''github.com'' \<or> re_search (re_href_host ''github.com'') part = None \<longrightarrow>
      links (parse_part part) ''github'' = links Project_init ''github'') \<and>
   (re_search (re_href_badge ''Website'') part = None \<longrightarrow>
      links (parse_part part) ''website'' = links Project_init ''website'') \<and>
   (re_search (re_href_badge ''APK'') part = None \<longrightarrow>
      links (parse_part part) ''apk'' = links Project_init ''apk'') \<and>
   (\<forall>k. k \<notin> set link_keys \<longrightarrow> links (parse_part part) k = links Project_init k) \<and>
   (re_findall2 re_screenshot part = [] \<longrightarrow>
      screenshots (parse_part part) = screenshots Project_init \<and>
      screenshots_local_paths (parse_part part) = screenshots_local_paths Project_init) \<and>
   (re_search re_banner part = None \<longrightarrow>
      banner_image (parse_part part) = banner_image Project_init) \<and>
   (re_search re_logo part = None \<longrightarrow>
      logo_url (parse_part part) = logo_url Project_init \<and>
      show_logo (parse_part part) = show_logo Project_init) \<and>
   (\<not> str_contains part ''border: 1px solid'' \<and> \<not> str_contains part ''border: 2px dashed'' \<longrightarrow>
      show_border (parse_part part) = show_border Project_init \<and>
      border_style (parse_part part) = border_style Project_init) \<and>
   (\<not> str_contains part ''<table'' \<and>
    \<not> (str_contains part ''align="center"'' \<and> str_contains part ''<br>'') \<longrightarrow>
      screenshot_layout (parse_part part) = screenshot_layout Project_init) \<and>
   (re_search re_width part = None \<or>
    (\<exists>m. re_search re_width part = Some m \<and> py_int (group m 1) = Inl ValueError) \<longrightarrow>
      screenshot_size (parse_part part) = screenshot_size Project_init) \<and>
   banner_local_path (parse_part part) = banner_local_path Project_init \<and>
   logo_position (parse_part part) = logo_position Project_init \<and>
   theme_color (parse_part part) = theme_color Project_init\<close>
proof -
  have l: "links (parse_part part) k = links Project_init k"
    if "k \<notin> set link_keys" for k
    using that by (simp add: parse_part_links_at link_keys_def Project_init_def)
  have h: "links (parse_part part) key = links Project_init key"
    if "\<not> str_contains part host \<or> re_search (re_href_host host) part = None"
      "(host, key) \<in> set [(''play.google.com'', ''playStore''),
         (''apps.apple.com'', ''appStore''), (''github.com'', ''github'')]" for host key
    using that by (auto simp: parse_part_links_at host_link_def Project_init_def)
  have b: "links (parse_part part) key = links Project_init key"
    if "re_search (re_href_badge label) part = None"
      "(label, key) \<in> set [(''Website'', ''website''), (''APK'', ''apk'')]" for label key
    using that by (auto simp: parse_part_links_at badge_link_def Project_init_def)
  have r: "parse_part part = parse_part part" ..
  show ?thesis
    unfolding parse_md_filter [symmetric]
    apply (intro conjI impI allI)
    apply (simp_all add: l h b)
    apply (auto simp: parse_part_eq Project_init_def)
    done
qed


theorem decoder_best_effort_witness:
  "re_split re_rule partial_doc = [untitled_block, heading_only] \<and>
   str_contains untitled_block ''## '' \<and> title (parse_part untitled_block) = [] \<and>
   parse_md partial_doc = [parse_part heading_only] \<and>
   proj_id (parse_part untitled_block) = [] \<and> categories (parse_part untitled_block) = [] \<and>
   short_description (parse_part untitled_block) = [] \<and>
   long_description (parse_part untitled_block) = [] \<and>
   technologies (parse_part untitled_block) = [] \<and> features (parse_part untitled_block) = [] \<and>
   map (links (parse_part untitled_block)) link_keys = [None, None, None, None, None] \<and>
   screenshots (parse_part untitled_block) = [] \<and>
   banner_image (parse_part untitled_block) = [] \<and> logo_url (parse_part untitled_block) = [] \<and>
   show_logo (parse_part untitled_block) \<and> \<not> show_border (parse_part untitled_block) \<and>
   border_style (parse_part untitled_block) = ''rounded'' \<and>
   screenshot_layout (parse_part untitled_block) = ''horizontal'' \<and>
   screenshot_size (parse_part untitled_block) = 200"
proof -
  have s: "re_split re_rule partial_doc = [untitled_block, heading_only]" by code_simp
  have c: "str_contains untitled_block ''## ''" "str_contains heading_only ''## ''" by code_simp+
  have t: "title (parse_part heading_only) = ''A''" by code_simp
  have e: "re_search re_title untitled_block = None" "re_findall1 re_backtick untitled_block = []"
    "re_search re_bold untitled_block = None" "re_search re_para untitled_block = None"
    "re_search re_tech_section untitled_block = None"
    "re_search re_features_section untitled_block = None"
    "\<not> str_contains untitled_block ''play.google.com''"
    "\<not> str_contains untitled_block ''apps.apple.com''"
    "\<not> str_contains untitled_block ''github.com''"
    "re_search (re_href_badge ''Website'') untitled_block = None"
    "re_search (re_href_badge ''APK'') untitled_block = None"
    "re_findall2 re_screenshot untitled_block = []" "re_search re_banner untitled_block = None"
    "re_search re_logo untitled_block = None"
    "\<not> str_contains untitled_block ''border: 1px solid''"
    "\<not> str_contains untitled_block ''border: 2px dashed''"
    "\<not> str_contains untitled_block ''<table''"
    "\<not> str_contains untitled_block ''<br>''"
    "re_search re_width untitled_block = None"
    by code_simp+
  from decoder_best_effort [of partial_doc untitled_block] s c t e show ?thesis
    by (simp add: Project_init_def link_keys_def)
qed

section \<open>The order of image resolution\<close>

lemma probe_numbered_find:
  "probe_numbered os dir num exts =
     find (path_exists os) (map (\<lambda>ext. path_join os dir (num @ ext)) exts)"
  by (induction exts) (simp_all add: Let_def)

lemma first_existing_Cons:
  "first_existing os (c # cs) = (if path_exists os c then c else first_existing os cs)"
  by (simp add: first_existing_def)

lemma first_existing_Nil: "first_existing os [] = []"
  by (simp add: first_existing_def)


text \<open>
  Claim C7. \<open>resolve_image_path\<close> returns the first path that exists among these, in this
  order: the reference itself if it is absolute; the reference joined to the directory of
  the document, if a document path is set; inside the image directory of the project (the
  directory \<^verbatim>\<open>images/{id}\<close> under the base directory, if the id is not empty), the base
  name of the reference; and, if the base name ends in digits, a dot and an extension, those
  digits followed by each of \<^verbatim>\<open>.jpg .jpeg .png .webp .gif\<close>. With no such path, and for an
  empty reference, the result is the empty string; the function is total.
\<close>

theorem resolve_image_path_order:
  "resolve_image_path os file_path imgdir path =
     (if path = [] then [] else first_existing os (resolve_candidates os file_path imgdir path)) \<and>
   images_dir os file_path script_dir p =
     (if proj_id p = [] then []
      else path_join os
             (path_join os (if path_set file_path then path_dirname os (the file_path)
                            else script_dir) ''images'')
             (proj_id p))"
proof
  show "resolve_image_path os file_path imgdir path =
     (if path = [] then [] else first_existing os (resolve_candidates os file_path imgdir path))"
    by (simp add: resolve_image_path_def resolve_candidates_def first_existing_Cons
        first_existing_Nil Let_def probe_numbered_find)
       (auto simp: first_existing_def probe_numbered_find split: option.splits)
  show "images_dir os file_path script_dir p =
     (if proj_id p = [] then []
      else path_join os
             (path_join os (if path_set file_path then path_dirname os (the file_path)
                            else script_dir) ''images'')
             (proj_id p))"
    by (simp add: images_dir_def base_dir_def path_set_def split: option.splits)
qed

theorem resolve_image_path_order_witness:
  "resolve_candidates (posix demo_files) (Some ''/docs/README.md'')
      (images_dir (posix demo_files) (Some ''/docs/README.md'') ''/app'' demo_project)
      ''shots/screenshot_3.png'' =
     [''/docs/shots/screenshot_3.png'', ''/docs/images/demo/screenshot_3.png'',
      ''/docs/images/demo/3.jpg'', ''/docs/images/demo/3.jpeg'', ''/docs/images/demo/3.png'',
      ''/docs/images/demo/3.webp'', ''/docs/images/demo/3.gif''] \<and>
   resolve_image_path (posix demo_files) (Some ''/docs/README.md'')
      (images_dir (posix demo_files) (Some ''/docs/README.md'') ''/app'' demo_project)
      ''shots/screenshot_3.png'' = ''/docs/images/demo/3.webp'' \<and>
   resolve_image_path (posix demo_files) (Some ''/docs/README.md'')
      (images_dir (posix demo_files) (Some ''/docs/README.md'') ''/app'' demo_project)
      ''missing.txt'' = []"
proof -
  let ?os = "posix demo_files" and ?fp = "Some ''/docs/README.md''"
  let ?dir = "images_dir ?os ?fp ''/app'' demo_project"
  have c: "resolve_candidates ?os ?fp ?dir ''shots/screenshot_3.png'' =
     [''/docs/shots/screenshot_3.png'', ''/docs/images/demo/screenshot_3.png'',
      ''/docs/images/demo/3.jpg'', ''/docs/images/demo/3.jpeg'', ''/docs/images/demo/3.png'',
      ''/docs/images/demo/3.webp'', ''/docs/images/demo/3.gif'']"
    by code_simp
  have f: "first_existing ?os (resolve_candidates ?os ?fp ?dir ''shots/screenshot_3.png'') =
     ''/docs/images/demo/3.webp''"
    by code_simp
  have m: "first_existing ?os (resolve_candidates ?os ?fp ?dir ''missing.txt'') = []"
    by code_simp
  note r = resolve_image_path_order [of ?os ?fp ?dir _ "''/app''" demo_project, THEN conjunct1]
  have a: "resolve_image_path ?os ?fp ?dir ''shots/screenshot_3.png'' = ''/docs/images/demo/3.webp''"
    by (subst r) (simp only: f list.distinct if_False)
  have b: "resolve_image_path ?os ?fp ?dir ''missing.txt'' = []"
    by (subst r) (simp only: m list.distinct if_False)
  from a b c show ?thesis by (intro conjI)
qed

section \<open>Runs, searches and splits\<close>

lemma rmatch_Star_Cls:
  "rmatch (Star (Cls P)) (s, g) k =
     (case s of
        [] \<Rightarrow> k (s, g)
      | c # cs \<Rightarrow>
          if P c then (case rmatch (Star (Cls P)) (cs, g) k of
                         Some r \<Rightarrow> Some r | None \<Rightarrow> k (s, g))
          else k (s, g))"
  by (subst rmatch.simps) (simp add: rmatch.simps split: list.splits)

lemma rmatch_LazyStar_Cls:
  "rmatch (LazyStar (Cls P)) (s, g) k =
     (case k (s, g) of
        Some r \<Rightarrow> Some r
      | None \<Rightarrow> (case s of
                   [] \<Rightarrow> None
                 | c # cs \<Rightarrow> if P c then rmatch (LazyStar (Cls P)) (cs, g) k else None))"
  by (subst rmatch.simps) (simp add: rmatch.simps split: list.splits option.splits)

text \<open>A greedy run takes the longest run first; when the rest of the pattern matches after
  it, or cannot match while the run could go on, the longest run is the one taken.\<close>

lemma star_run:
  "k (dropWhile P s, g) \<noteq> None \<or> (\<forall>ys. ys \<noteq> [] \<and> P (hd ys) \<longrightarrow> k (ys, g) = None) \<Longrightarrow>
   rmatch (Star (Cls P)) (s, g) k = k (dropWhile P s, g)"
proof (induction s)
  case Nil
  show ?case by (subst rmatch_Star_Cls) simp
next
  case (Cons c cs)
  show ?case
  proof (cases "P c")
    case True
    with Cons have ih: "rmatch (Star (Cls P)) (cs, g) k = k (dropWhile P cs, g)" by simp
    from Cons.prems True have "k (dropWhile P cs, g) \<noteq> None \<or> k (c # cs, g) = None"
      by auto
    then show ?thesis
      by (subst rmatch_Star_Cls) (auto simp: True ih split: option.splits)
  next
    case False
    then show ?thesis by (subst rmatch_Star_Cls) simp
  qed
qed

lemma rmatch_Plus_Cls:
  "rmatch (Plus (Cls P)) (s, g) k =
     (case s of [] \<Rightarrow> None | c # cs \<Rightarrow> if P c then rmatch (Star (Cls P)) (cs, g) k else None)"
  by (simp add: Plus_def rmatch.simps(2,3) split: list.splits)

lemma plus_run:
  "k (dropWhile P s, g) \<noteq> None \<or> (\<forall>ys. ys \<noteq> [] \<and> P (hd ys) \<longrightarrow> k (ys, g) = None) \<Longrightarrow>
   rmatch (Plus (Cls P)) (s, g) k =
     (case s of [] \<Rightarrow> None | c # cs \<Rightarrow> if P c then k (dropWhile P s, g) else None)"
proof (cases s)
  case Nil
  then show ?thesis by (simp add: rmatch_Plus_Cls)
next
  case (Cons c cs)
  assume a: "k (dropWhile P s, g) \<noteq> None \<or> (\<forall>ys. ys \<noteq> [] \<and> P (hd ys) \<longrightarrow> k (ys, g) = None)"
  show ?thesis
  proof (cases "P c")
    case True
    with a Cons have "k (dropWhile P cs, g) \<noteq> None \<or>
        (\<forall>ys. ys \<noteq> [] \<and> P (hd ys) \<longrightarrow> k (ys, g) = None)" by simp
    then have "rmatch (Star (Cls P)) (cs, g) k = k (dropWhile P cs, g)" by (rule star_run)
    with True Cons show ?thesis by (simp add: rmatch_Plus_Cls)
  next
    case False
    with Cons show ?thesis by (simp add: rmatch_Plus_Cls)
  qed
qed

text \<open>A lazy run of any characters is a search for the first place where the rest of the
  pattern matches.\<close>

lemma lazy_any_skip:
  "(\<And>i. i < length xs \<Longrightarrow> k (drop i xs @ ys, g) = None) \<Longrightarrow>
   rmatch (LazyStar (Cls any_char)) (xs @ ys, g) k = rmatch (LazyStar (Cls any_char)) (ys, g) k"
proof (induction xs)
  case Nil
  show ?case by simp
next
  case (Cons x xs)
  from Cons.prems [of 0] have 0: "k (x # xs @ ys, g) = None" by simp
  have "\<And>i. i < length xs \<Longrightarrow> k (drop i xs @ ys, g) = None"
    using Cons.prems [of "Suc _"] by simp
  then have ih: "rmatch (LazyStar (Cls any_char)) (xs @ ys, g) k =
                 rmatch (LazyStar (Cls any_char)) (ys, g) k" by (rule Cons.IH)
  show ?case
    by (subst rmatch_LazyStar_Cls) (simp add: 0 ih any_char_def)
qed

lemma lazy_any_here:
  "k (s, g) = Some r \<Longrightarrow> rmatch (LazyStar (Cls any_char)) (s, g) k = Some r"
  by (subst rmatch_LazyStar_Cls) simp

lemma lazy_any_none:
  "(\<And>i. i \<le> length s \<Longrightarrow> k (drop i s, g) = None) \<Longrightarrow>
   rmatch (LazyStar (Cls any_char)) (s, g) k = None"
proof (induction s)
  case Nil
  from Nil [of 0] show ?case by (subst rmatch_LazyStar_Cls) simp
next
  case (Cons x xs)
  from Cons.prems [of 0] have 0: "k (x # xs, g) = None" by simp
  have "\<And>i. i \<le> length xs \<Longrightarrow> k (drop i xs, g) = None"
    using Cons.prems [of "Suc _"] by simp
  then have "rmatch (LazyStar (Cls any_char)) (xs, g) k = None" by (rule Cons.IH)
  then show ?case by (subst rmatch_LazyStar_Cls) (simp add: 0)
qed

text \<open>Searching: a stretch of text in which no match starts is skipped.\<close>

lemma re_search_skip:
  "(\<And>i. i < length xs \<Longrightarrow> match_here r (drop i xs @ ys) = None) \<Longrightarrow>
   re_search r (xs @ ys) = re_search r ys"
proof (induction xs)
  case Nil
  show ?case by simp
next
  case (Cons x xs)
  from Cons.prems [of 0] have 0: "match_here r (x # xs @ ys) = None" by simp
  have "\<And>i. i < length xs \<Longrightarrow> match_here r (drop i xs @ ys) = None"
    using Cons.prems [of "Suc _"] by simp
  then have "re_search r (xs @ ys) = re_search r ys" by (rule Cons.IH)
  then show ?case by (simp add: 0)
qed

lemma re_search_here:
  "match_here r s = Some res \<Longrightarrow> re_search r s = Some (fst res)"
  by (cases s) simp_all

lemma re_search_none:
  "(\<And>i. i \<le> length s \<Longrightarrow> match_here r (drop i s) = None) \<Longrightarrow> re_search r s = None"
proof (induction s)
  case Nil
  from Nil [of 0] show ?case by simp
next
  case (Cons x xs)
  from Cons.prems [of 0] have 0: "match_here r (x # xs) = None" by simp
  have "\<And>i. i \<le> length xs \<Longrightarrow> match_here r (drop i xs) = None"
    using Cons.prems [of "Suc _"] by simp
  then have "re_search r xs = None" by (rule Cons.IH)
  then show ?case by (simp add: 0)
qed

lemma re_finditer_skip:
  "(\<And>i. i < length xs \<Longrightarrow> match_here r (drop i xs @ ys) = None) \<Longrightarrow>
   re_finditer r (xs @ ys) = re_finditer r ys"
proof (induction xs)
  case Nil
  show ?case by simp
next
  case (Cons x xs)
  from Cons.prems [of 0] have 0: "match_here r (x # xs @ ys) = None" by simp
  have "\<And>i. i < length xs \<Longrightarrow> match_here r (drop i xs @ ys) = None"
    using Cons.prems [of "Suc _"] by simp
  then have "re_finditer r (xs @ ys) = re_finditer r ys" by (rule Cons.IH)
  then show ?case by (subst re_finditer.simps) (simp add: 0)
qed

lemma re_finditer_here:
  "match_here r s = Some (m, rest) \<Longrightarrow> length rest < length s \<Longrightarrow>
   re_finditer r s = m # re_finditer r rest"
  by (subst re_finditer.simps) simp

lemma re_finditer_none:
  "(\<And>i. i \<le> length s \<Longrightarrow> match_here r (drop i s) = None) \<Longrightarrow> re_finditer r s = []"
proof (induction s)
  case Nil
  from Nil [of 0] show ?case by (subst re_finditer.simps) simp
next
  case (Cons x xs)
  from Cons.prems [of 0] have 0: "match_here r (x # xs) = None" by simp
  have "\<And>i. i \<le> length xs \<Longrightarrow> match_here r (drop i xs) = None"
    using Cons.prems [of "Suc _"] by simp
  then have "re_finditer r xs = []" by (rule Cons.IH)
  then show ?case by (subst re_finditer.simps) (simp add: 0)
qed

text \<open>A pattern that begins with a literal matches only where the literal stands.\<close>

lemma match_here_Lit_None:
  "\<not> prefix l s \<Longrightarrow> match_here (Seq (Lit l) r) s = None"
  by (simp add: match_here_def rmatch.simps)

text \<open>Substring tests.\<close>

lemma str_contains_iff: "str_contains s sub \<longleftrightarrow> (\<exists>i \<le> length s. prefix sub (drop i s))"
proof (induction s)
  case Nil
  show ?case by simp
next
  case (Cons c cs)
  show ?case
  proof
    assume "str_contains (c # cs) sub"
    then consider "prefix sub (c # cs)" | "str_contains cs sub" by auto
    then show "\<exists>i \<le> length (c # cs). prefix sub (drop i (c # cs))"
    proof cases
      case 1
      then have "prefix sub (drop 0 (c # cs))" by simp
      then show ?thesis by blast
    next
      case 2
      with Cons obtain i where "i \<le> length cs" "prefix sub (drop i cs)" by auto
      then have "Suc i \<le> length (c # cs) \<and> prefix sub (drop (Suc i) (c # cs))" by simp
      then show ?thesis by blast
    qed
  next
    assume "\<exists>i \<le> length (c # cs). prefix sub (drop i (c # cs))"
    then obtain i where i: "i \<le> length (c # cs)" "prefix sub (drop i (c # cs))" by auto
    show "str_contains (c # cs) sub"
    proof (cases i)
      case 0
      with i show ?thesis by simp
    next
      case (Suc j)
      with i have "j \<le> length cs" "prefix sub (drop j cs)" by auto
      with Cons show ?thesis by auto
    qed
  qed
qed

lemma str_contains_skip:
  "(\<And>i. i < length xs \<Longrightarrow> \<not> prefix sub (drop i xs @ ys)) \<Longrightarrow>
   str_contains (xs @ ys) sub = str_contains ys sub"
proof (induction xs)
  case Nil
  show ?case by simp
next
  case (Cons x xs)
  from Cons.prems [of 0] have 0: "\<not> prefix sub (x # xs @ ys)" by simp
  have "\<And>i. i < length xs \<Longrightarrow> \<not> prefix sub (drop i xs @ ys)"
    using Cons.prems [of "Suc _"] by simp
  then have "str_contains (xs @ ys) sub = str_contains ys sub" by (rule Cons.IH)
  then show ?case by (simp add: 0)
qed

lemma str_contains_here: "prefix sub s \<Longrightarrow> str_contains s sub"
  by (cases s) simp_all

lemma str_contains_append2: "str_contains ys sub \<Longrightarrow> str_contains (xs @ ys) sub"
  by (induction xs) simp_all

lemma str_contains_append1: "str_contains xs sub \<Longrightarrow> str_contains (xs @ ys) sub"
proof -
  assume "str_contains xs sub"
  then obtain i where i: "i \<le> length xs" "prefix sub (drop i xs)"
    by (auto simp: str_contains_iff)
  then have "prefix sub (drop i (xs @ ys))" by (simp add: prefix_prefix)
  with i show ?thesis unfolding str_contains_iff [of "xs @ ys"]
    by (intro exI [of _ i]) simp
qed

lemma rmatch_Lit: "rmatch (Lit l) (s, g) k = (if prefix l s then k (drop (length l) s, g) else None)"
  by (simp add: rmatch.simps)

lemma rmatch_Seq: "rmatch (Seq a b) st k = rmatch a st (\<lambda>st'. rmatch b st' k)"
  by (simp add: rmatch.simps)

lemma rmatch_Grp:
  "rmatch (Grp n a) (s, g) k =
     rmatch a (s, g) (\<lambda>st'. k (fst st', (n, take (length s - length (fst st')) s) # snd st'))"
  by (simp add: rmatch.simps)

lemma match_here_eq:
  "rmatch r (xs @ ys, []) Some = Some (ys, g) \<Longrightarrow> match_here r (xs @ ys) = Some ((xs, g), ys)"
  by (simp add: match_here_def)

lemma dropWhile_run:
  "\<forall>c \<in> set xs. P c \<Longrightarrow> ys = [] \<or> \<not> P (hd ys) \<Longrightarrow> dropWhile P (xs @ ys) = ys"
  by (induction xs) (auto simp: dropWhile_eq_self_iff)

lemma match_title_at:
  assumes "h \<noteq> []" "\<not> py_isspace (hd h)" "CHR ''\<newline>'' \<notin> set h"
    "rest = [] \<or> hd rest = CHR ''\<newline>''"
  shows "match_here re_title (''## '' @ h @ rest) = Some ((''## '' @ h, [(1, h)]), rest)"
proof -
  have sp: "py_isspace (CHR '' '')" by (simp add: py_isspace_def)
  have d1: "dropWhile py_isspace (CHR '' '' # h @ rest) = h @ rest"
    using assms(1,2) sp by (cases h) auto
  have d1': "dropWhile py_isspace (h @ rest) = h @ rest"
    using assms(1,2) by (cases h) auto
  have d2: "dropWhile not_newline (h @ rest) = rest"
    using assms(3,4) by (intro dropWhile_run) (auto simp: not_newline_def)
  obtain c cs where h: "h = c # cs" using assms(1) by (cases h) auto
  have nn: "not_newline c" using assms(3) h by (auto simp: not_newline_def)
  have d2': "dropWhile not_newline (cs @ rest) = rest" using d2 nn by (simp add: h)
  have g: "rmatch (Grp 1 (Plus (Cls not_newline))) (h @ rest, []) Some = Some (rest, [(1, h)])"
    unfolding rmatch_Grp
    by (subst plus_run) (simp_all add: h nn d2' del: One_nat_def)
  have "rmatch (Plus (Cls py_isspace)) (CHR '' '' # h @ rest, [])
          (\<lambda>st'. rmatch (Grp 1 (Plus (Cls not_newline))) st' Some) = Some (rest, [(1, h)])"
    by (subst plus_run) (simp_all add: d1 d1' g sp del: One_nat_def)
  then have "match_here re_title ((''## '' @ h) @ rest) = Some ((''## '' @ h, [(1, h)]), rest)"
    by (intro match_here_eq) (simp add: re_title_def rmatch_Seq rmatch_Lit del: One_nat_def)
  then show ?thesis by simp
qed

lemma match_title_hash:
  "match_here re_title (CHR ''#'' # CHR ''#'' # CHR ''#'' # s) = None"
  by (simp add: match_here_def re_title_def rmatch_Seq rmatch_Lit rmatch_Plus_Cls py_isspace_def)

lemma lines_text_Nil [simp]: "lines_text [] = []"
  by (simp add: lines_text_def)

lemma lines_text_Cons: \<open>lines_text (l # ls) = l @ ''\<newline>'' @ lines_text ls\<close>
  by (simp add: lines_text_def)

lemma lines_text_append: "lines_text (xs @ ys) = lines_text xs @ lines_text ys"
  by (simp add: lines_text_def)

lemma str_join_lines: \<open>str_join ''\<newline>'' (ls @ [l]) = lines_text ls @ l\<close>
proof (induction ls)
  case Nil
  show ?case by simp
next
  case (Cons a ls)
  then show ?case by (cases ls) (simp_all add: lines_text_Cons)
qed

lemma match_here_rule_None:
  \<open>\<not> prefix ''<hr>'' s \<Longrightarrow> \<not> prefix ''\<newline>---\<newline>'' s \<Longrightarrow> match_here re_rule s = None\<close>
  by (simp add: match_here_def re_rule_def rmatch.simps)

lemma match_here_rule_dashes:
  \<open>match_here re_rule (''\<newline>---\<newline>'' @ t) = Some ((''\<newline>---\<newline>'', []), t)\<close>
  by (simp add: match_here_def re_rule_def rmatch.simps)

lemma re_split_from_skip:
  "(\<And>i. i < length xs \<Longrightarrow> match_here r (drop i xs @ ys) = None) \<Longrightarrow>
   re_split_from r cur (xs @ ys) = re_split_from r (cur @ xs) ys"
proof (induction xs arbitrary: cur)
  case Nil
  show ?case by simp
next
  case (Cons x xs)
  from Cons.prems [of 0] have 0: "match_here r (x # xs @ ys) = None" by simp
  have "\<And>i. i < length xs \<Longrightarrow> match_here r (drop i xs @ ys) = None"
    using Cons.prems [of "Suc _"] by simp
  then have "re_split_from r (cur @ [x]) (xs @ ys) = re_split_from r ((cur @ [x]) @ xs) ys"
    by (rule Cons.IH)
  then show ?case by (subst re_split_from.simps) (simp add: 0)
qed

lemma re_split_from_end:
  "(\<And>i. i \<le> length xs \<Longrightarrow> match_here r (drop i xs) = None) \<Longrightarrow>
   re_split_from r cur xs = [cur @ xs]"
proof (induction xs arbitrary: cur)
  case Nil
  from Nil [of 0] show ?case by (subst re_split_from.simps) simp
next
  case (Cons x xs)
  from Cons.prems [of 0] have 0: "match_here r (x # xs) = None" by simp
  have "\<And>i. i \<le> length xs \<Longrightarrow> match_here r (drop i xs) = None"
    using Cons.prems [of "Suc _"] by simp
  then have "re_split_from r (cur @ [x]) xs = [(cur @ [x]) @ xs]" by (rule Cons.IH)
  then show ?case by (subst re_split_from.simps) (simp add: 0)
qed

lemma re_split_from_dashes:
  \<open>re_split_from re_rule cur (''\<newline>---\<newline>'' @ t) = cur # re_split_from re_rule [] t\<close>
  by (subst re_split_from.simps) (simp add: match_here_rule_dashes [simplified])

text \<open>No rule starts inside a line that holds no newline and no \<^verbatim>\<open><hr>\<close>, nor at the
  newline after it unless the next line is \<^verbatim>\<open>---\<close>.\<close>

lemma prefix_short: "length l \<le> length a \<Longrightarrow> prefix l (a @ b) = prefix l a"
  by (metis prefix_length_prefix prefix_prefix prefixI)

lemma prefix_straddle:
  assumes "prefix l (d @ c # ys)" "c \<notin> set l"
  shows "prefix l d"
proof (cases "length l \<le> length d")
  case True
  with assms(1) show ?thesis by (simp add: prefix_short)
next
  case False
  from assms(1) obtain zs where z: "d @ c # ys = l @ zs" by (auto simp: prefix_def)
  from False have "l ! length d = (l @ zs) ! length d" by (simp add: nth_append)
  also have "\<dots> = c" using z [symmetric] by (simp add: nth_append)
  finally have "c \<in> set l" using False by (metis linorder_not_le nth_mem)
  with assms(2) show ?thesis by simp
qed

lemma no_hr_in_line:
  assumes "\<not> str_contains l ''<hr>''" "i < length l"
  shows \<open>\<not> prefix ''<hr>'' (drop i l @ CHR ''\<newline>'' # ys)\<close>
proof
  assume p: \<open>prefix ''<hr>'' (drop i l @ CHR ''\<newline>'' # ys)\<close>
  from assms have n: "\<not> prefix ''<hr>'' (drop i l)" by (auto simp: str_contains_iff)
  from prefix_straddle [OF p] n show False by simp
qed

lemma rule_free_line:
  assumes "line_ok l" \<open>\<not> prefix ''---\<newline>'' ys\<close> \<open>i < length (l @ ''\<newline>'')\<close>
  shows \<open>match_here re_rule (drop i (l @ ''\<newline>'') @ ys) = None\<close>
proof (cases "i < length l")
  case True
  then obtain c cs where d: "drop i l = c # cs" by (cases "drop i l") auto
  then have "c \<in> set l" by (metis in_set_dropD list.set_intros(1))
  with assms(1) have "c \<noteq> CHR ''\<newline>''" by (auto simp: line_ok_def)
  moreover from no_hr_in_line [OF _ True, of ys] assms(1)
  have \<open>\<not> prefix ''<hr>'' (drop i l @ CHR ''\<newline>'' # ys)\<close> by (simp add: line_ok_def)
  ultimately show ?thesis using True
    by (intro match_here_rule_None) (simp_all add: d)
next
  case False
  with assms(3) have "i = length l" by simp
  then show ?thesis using assms(2)
    by (intro match_here_rule_None) simp_all
qed

lemma next_line_not_dashes:
  assumes "line_ok l"
  shows \<open>\<not> prefix ''---\<newline>'' (l @ ''\<newline>'' @ ys)\<close>
proof -
  from assms have nl: "CHR ''\<newline>'' \<notin> set l" and nd: "l \<noteq> ''---''" by (auto simp: line_ok_def)
  show ?thesis
  proof (cases l)
    case Nil
    then show ?thesis by simp
  next
    case c1: (Cons a l1)
    show ?thesis
    proof (cases l1)
      case Nil
      with c1 show ?thesis by simp
    next
      case c2: (Cons b l2)
      show ?thesis
      proof (cases l2)
        case Nil
        with c1 c2 show ?thesis by simp
      next
        case c3: (Cons c l3)
        show ?thesis
        proof (cases l3)
          case Nil
          with c1 c2 c3 nd show ?thesis by auto
        next
          case (Cons d l4)
          with c1 c2 c3 nl show ?thesis by auto
        qed
      qed
    qed
  qed
qed

lemma re_split_lines:
  assumes "\<forall>l \<in> set ls. line_ok l" \<open>\<not> prefix ''---\<newline>'' ys\<close>
  shows "re_split_from re_rule cur (lines_text ls @ ys) = re_split_from re_rule (cur @ lines_text ls) ys"
  using assms(1)
proof (induction ls arbitrary: cur)
  case Nil
  show ?case by simp
next
  case (Cons l ls)
  have nd: \<open>\<not> prefix ''---\<newline>'' (lines_text ls @ ys)\<close>
  proof (cases ls)
    case Nil
    with assms(2) show ?thesis by simp
  next
    case (Cons l2 ls2)
    with Cons.prems have "line_ok l2" by simp
    from next_line_not_dashes [OF this] Cons show ?thesis by (simp add: lines_text_Cons)
  qed
  from Cons.prems have ok: "line_ok l" by simp
  have "re_split_from re_rule cur ((l @ ''\<newline>'') @ lines_text ls @ ys) =
        re_split_from re_rule (cur @ l @ ''\<newline>'') (lines_text ls @ ys)"
    by (rule re_split_from_skip) (rule rule_free_line [OF ok nd])
  also have "\<dots> = re_split_from re_rule ((cur @ l @ ''\<newline>'') @ lines_text ls) ys"
    using Cons.prems by (intro Cons.IH) simp
  finally show ?case by (simp add: lines_text_Cons)
qed

section \<open>The front matter is decoded as a project\<close>

lemma py_strip_nonempty: "h \<noteq> [] \<Longrightarrow> \<not> py_isspace (hd h) \<Longrightarrow> py_strip h \<noteq> []"
proof -
  assume a: "h \<noteq> []" "\<not> py_isspace (hd h)"
  then have d: "dropWhile py_isspace h = h" by (cases h) auto
  have "hd h \<in> set (rev h)" using a by simp
  with a(2) have "dropWhile py_isspace (rev h) \<noteq> []"
    by (metis dropWhile_eq_Nil_conv)
  then show ?thesis by (simp add: py_strip_def d)
qed

lemma title_search_level3:
  assumes "\<not> str_contains (pre @ ''#'') ''##''"
    "h \<noteq> []" "\<not> py_isspace (hd h)" "CHR ''\<newline>'' \<notin> set h"
    "rest = [] \<or> hd rest = CHR ''\<newline>''"
  shows "re_search re_title (pre @ ''### '' @ h @ rest) = Some (''## '' @ h, [(1, h)])"
proof -
  have skip: "match_here re_title (drop i (pre @ ''#'') @ ''## '' @ h @ rest) = None"
    if i: "i < length (pre @ ''#'')" for i
  proof (cases "i < length pre")
    case True
    from assms(1) have "\<forall>j \<le> length (pre @ ''#''). \<not> prefix ''##'' (drop j (pre @ ''#''))"
      unfolding str_contains_iff by blast
    then have n: "\<not> prefix ''##'' (drop i (pre @ ''#''))"
      using i by (blast intro: less_imp_le)
    from True have "length ''##'' \<le> length (drop i (pre @ ''#''))" by simp
    from prefix_short [OF this] n
    have "\<not> prefix ''##'' (drop i (pre @ ''#'') @ ''## '' @ h @ rest)" by simp
    then show ?thesis unfolding re_title_def by (rule match_here_Lit_None)
  next
    case False
    with i have "i = length pre" by simp
    then show ?thesis by (simp add: match_title_hash)
  qed
  have "re_search re_title ((pre @ ''#'') @ ''## '' @ h @ rest) =
        re_search re_title (''## '' @ h @ rest)"
    by (rule re_search_skip) (rule skip)
  also have "\<dots> = Some (''## '' @ h, [(1, h)])"
    using re_search_here [OF match_title_at [OF assms(2-5)]] by simp
  finally show ?thesis by simp
qed

lemma contains_level3: "str_contains (pre @ ''### '' @ h @ rest) ''## ''"
proof -
  have "str_contains (''## '' @ h @ rest) ''## ''" by (rule str_contains_here) simp
  then have "str_contains ((pre @ ''#'') @ ''## '' @ h @ rest) ''## ''"
    by (rule str_contains_append2)
  then show ?thesis by simp
qed

lemma front_lines_ok: "\<forall>l \<in> set front_lines. line_ok l"
  by code_simp

lemma front_pre: "\<not> str_contains (lines_text (take 6 front_lines) @ ''#'') ''##''"
  by code_simp

lemma front_shape:
  "front_matter = lines_text (take 6 front_lines) @ ''### '' @ ''About this Repository'' @
     (''\<newline>'' @ lines_text (drop 7 front_lines))"
  by code_simp

lemma header_lines_split: "header_lines = front_lines @ [[], ''---'', []]"
  by (simp add: front_lines_def header_lines_def)

lemma butlast_footer: "footer_lines today = butlast (footer_lines today) @ [''</div>'']"
  by (simp add: footer_lines_def)

lemma generate_full_md_front:
  \<open>generate_full_md os today projects =
     front_matter @ ''\<newline>---\<newline>'' @
     (''\<newline>'' @ lines_text (toc_lines projects @
        concat (map (project_block_lines os) (py_enumerate projects 0)) @
        butlast (footer_lines today)) @ ''</div>'')\<close>
proof -
  let ?mid = "toc_lines projects @ concat (map (project_block_lines os) (py_enumerate projects 0))"
  have "generate_full_md os today projects =
        str_join ''\<newline>'' ((header_lines @ ?mid @ butlast (footer_lines today)) @ [''</div>''])"
    unfolding generate_full_md_def by (subst butlast_footer) simp
  also have "\<dots> = lines_text (header_lines @ ?mid @ butlast (footer_lines today)) @ ''</div>''"
    by (rule str_join_lines)
  finally show ?thesis
    by (simp add: header_lines_split lines_text_append lines_text_Cons front_matter_def)
qed

lemma re_split_front:
  \<open>re_split_from re_rule [] (front_matter @ ''\<newline>---\<newline>'' @ t) =
     front_matter # re_split_from re_rule [] t\<close>
proof -
  have "re_split_from re_rule [] (lines_text front_lines @ ''\<newline>---\<newline>'' @ t) =
        re_split_from re_rule ([] @ lines_text front_lines) (''\<newline>---\<newline>'' @ t)"
    by (rule re_split_lines [OF front_lines_ok]) simp
  then show ?thesis by (simp only: front_matter_def append_Nil re_split_from_dashes)
qed

lemma front_title: "re_search re_title front_matter = Some (''## About this Repository'', [(1, ''About this Repository'')])"
proof -
  have "re_search re_title (lines_text (take 6 front_lines) @ ''### '' @ ''About this Repository'' @
     (''\<newline>'' @ lines_text (drop 7 front_lines))) =
     Some (''## '' @ ''About this Repository'', [(1, ''About this Repository'')])"
    by (rule title_search_level3 [OF front_pre]) (simp_all add: py_isspace_def)
  then show ?thesis by (simp only: front_shape [symmetric]) simp
qed

lemma front_contains: "str_contains front_matter ''## ''"
  unfolding front_shape by (rule contains_level3)

lemma front_project_title: "title (parse_part front_matter) = ''About this Repository''"
  by (simp add: parse_part_title front_title group_def py_strip_def py_isspace_def)

lemma parse_md_front:
  "parse_md (generate_full_md os today projects) =
     parse_part front_matter #
     parse_parts (re_split_from re_rule []
       (''\<newline>'' @ lines_text (toc_lines projects @
          concat (map (project_block_lines os) (py_enumerate projects 0)) @
          butlast (footer_lines today)) @ ''</div>''))"
  unfolding parse_md_def re_split_def generate_full_md_front re_split_front
  using front_contains by (simp add: front_project_title Let_def del: str_contains.simps)


text \<open>
  Claim C9. The filter of the decoder looks for \<^verbatim>\<open>"## "\<close>, which every level-3 heading
  \<^verbatim>\<open>### ...\<close> contains. So a part passes the filter as soon as it holds a level-3 heading,
  and when no \<^verbatim>\<open>##\<close> stands before that heading, the title pattern matches inside it and
  recovers its text, stripped, as a title that is not empty: the part is kept as a project.
  The front matter that the encoder writes is such a part: whatever the projects, the first
  project decoded from a generated document is the front matter, titled
  \<^verbatim>\<open>About this Repository\<close>.
\<close>

theorem level3_heading_kept:
  "str_contains (pre @ ''### '' @ h @ rest) ''## '' \<and>
   (\<not> str_contains (pre @ ''#'') ''##'' \<and> h \<noteq> [] \<and> \<not> py_isspace (hd h) \<and>
    CHR ''\<newline>'' \<notin> set h \<and> (rest = [] \<or> hd rest = CHR ''\<newline>'') \<longrightarrow>
      title (parse_part (pre @ ''### '' @ h @ rest)) = py_strip h \<and> py_strip h \<noteq> [] \<and>
      parse_parts [pre @ ''### '' @ h @ rest] = [parse_part (pre @ ''### '' @ h @ rest)]) \<and>
   (\<exists>others. parse_md (generate_full_md os today projects) = parse_part front_matter # others) \<and>
   title (parse_part front_matter) = ''About this Repository''"
proof (intro conjI impI)
  show c: "str_contains (pre @ ''### '' @ h @ rest) ''## ''" by (rule contains_level3)
  show "\<exists>others. parse_md (generate_full_md os today projects) = parse_part front_matter # others"
    using parse_md_front by blast
  show "title (parse_part front_matter) = ''About this Repository''"
    by (rule front_project_title)
  assume a: "\<not> str_contains (pre @ ''#'') ''##'' \<and> h \<noteq> [] \<and> \<not> py_isspace (hd h) \<and>
    CHR ''\<newline>'' \<notin> set h \<and> (rest = [] \<or> hd rest = CHR ''\<newline>'')"
  then have s: "re_search re_title (pre @ ''### '' @ h @ rest) = Some (''## '' @ h, [(1, h)])"
    by (intro title_search_level3) simp_all
  show t: "title (parse_part (pre @ ''### '' @ h @ rest)) = py_strip h"
    by (simp only: parse_part_title s) (simp add: group_def)
  show n: "py_strip h \<noteq> []" using a by (intro py_strip_nonempty) simp_all
  show "parse_parts [pre @ ''### '' @ h @ rest] = [parse_part (pre @ ''### '' @ h @ rest)]"
    using c t n by (simp add: Let_def del: str_contains.simps)
qed

theorem level3_heading_kept_witness:
  "\<not> str_contains (lines_text (take 6 front_lines) @ ''#'') ''##'' \<and>
   front_matter = lines_text (take 6 front_lines) @ ''### '' @ ''About this Repository'' @
     (''\<newline>'' @ lines_text (drop 7 front_lines)) \<and>
   str_contains front_matter ''## '' \<and>
   title (parse_part front_matter) = ''About this Repository'' \<and>
   parse_parts [front_matter] = [parse_part front_matter] \<and>
   hd (parse_md (generate_full_md (posix []) today_sample [])) = parse_part front_matter"
proof -
  let ?pre = "lines_text (take 6 front_lines)" and ?h = "''About this Repository''"
  let ?rest = "''\<newline>'' @ lines_text (drop 7 front_lines)"
  have h: "\<not> str_contains (?pre @ ''#'') ''##'' \<and> ?h \<noteq> [] \<and> \<not> py_isspace (hd ?h) \<and>
    CHR ''\<newline>'' \<notin> set ?h \<and> (?rest = [] \<or> hd ?rest = CHR ''\<newline>'')"
    using front_pre by (simp add: py_isspace_def)
  have s: "py_strip ?h = ?h" by (simp add: py_strip_def py_isspace_def)
  from level3_heading_kept [of ?pre ?h ?rest "posix []" today_sample "[]"] h
  have "str_contains (?pre @ ''### '' @ ?h @ ?rest) ''## '' \<and>
        title (parse_part (?pre @ ''### '' @ ?h @ ?rest)) = py_strip ?h \<and>
        parse_parts [?pre @ ''### '' @ ?h @ ?rest] = [parse_part (?pre @ ''### '' @ ?h @ ?rest)] \<and>
        (\<exists>others. parse_md (generate_full_md (posix []) today_sample []) =
            parse_part front_matter # others)"
    by blast
  then show ?thesis
    unfolding front_shape [symmetric] s using front_pre front_shape by auto
qed

section \<open>Encoding then decoding a one-project collection\<close>

lemma rest_shape:
  \<open>''\<newline>'' @ lines_text (toc_lines [single_project] @
       concat (map (project_block_lines (posix [])) (py_enumerate [single_project] 0)) @
       butlast (footer_lines today_sample)) @ ''</div>'' =
   lines_text toc_part_lines @ ''\<newline>---\<newline>'' @
   (lines_text project_part_lines @ ''\<newline>---\<newline>'' @
    (lines_text footer_part_lines @ ''</div>''))\<close>
  by code_simp

lemma part_lines_ok:
  "\<forall>l \<in> set toc_part_lines. line_ok l" "\<forall>l \<in> set project_part_lines. line_ok l"
  "\<forall>l \<in> set footer_part_lines. line_ok l"
  by code_simp+

lemma re_split_block:
  assumes "\<forall>l \<in> set ls. line_ok l"
  shows \<open>re_split_from re_rule [] (lines_text ls @ ''\<newline>---\<newline>'' @ t) =
     lines_text ls # re_split_from re_rule [] t\<close>
proof -
  have "re_split_from re_rule [] (lines_text ls @ ''\<newline>---\<newline>'' @ t) =
        re_split_from re_rule ([] @ lines_text ls) (''\<newline>---\<newline>'' @ t)"
    by (rule re_split_lines [OF assms]) simp
  then show ?thesis by (simp only: append_Nil re_split_from_dashes)
qed

lemma re_split_last:
  assumes "\<forall>l \<in> set ls. line_ok l"
  shows \<open>re_split_from re_rule [] (lines_text ls @ ''</div>'') = [lines_text ls @ ''</div>'']\<close>
proof -
  have "re_split_from re_rule [] (lines_text ls @ ''</div>'') =
        re_split_from re_rule ([] @ lines_text ls) ''</div>''"
    by (rule re_split_lines [OF assms]) simp
  also have "\<dots> = [([] @ lines_text ls) @ ''</div>'']"
  proof (rule re_split_from_end)
    fix i assume "i \<le> length ''</div>''"
    then have "i \<in> {0, 1, 2, 3, 4, 5, 6}" by auto
    then show "match_here re_rule (drop i ''</div>'') = None"
      by (auto intro!: match_here_rule_None)
  qed
  finally show ?thesis by simp
qed

lemma sample_parts:
  "parse_md (generate_full_md (posix []) today_sample [single_project]) =
     parse_part front_matter #
     parse_parts [lines_text toc_part_lines, lines_text project_part_lines,
                  lines_text footer_part_lines @ ''</div>'']"
  unfolding parse_md_front rest_shape
  by (simp only: re_split_block [OF part_lines_ok(1)] re_split_block [OF part_lines_ok(2)]
      re_split_last [OF part_lines_ok(3)])

lemma toc_part: "str_contains (lines_text toc_part_lines) ''## ''"
  "re_search re_title (lines_text toc_part_lines) =
     Some (''## '' @ clipboard_emoji @ '' Contents'', [(1, clipboard_emoji @ '' Contents'')])"
  by code_simp+

lemma project_part: "str_contains (lines_text project_part_lines) ''## ''"
  "re_search re_title (lines_text project_part_lines) = Some (''## A'', [(1, ''A'')])"
  by code_simp+

lemma footer_part: "\<not> str_contains (lines_text footer_part_lines @ ''</div>'') ''## ''"
  by code_simp

lemma strip_titles: "py_strip (clipboard_emoji @ '' Contents'') = clipboard_emoji @ '' Contents''"
  "py_strip ''A'' = ''A''"
  by code_simp+


text \<open>
  Claim C1 says that decoding an encoded collection yields as many projects as were encoded,
  with the same titles. The code does not do that: the collection that holds the one project
  titled \<^verbatim>\<open>A\<close> is encoded to a document that decodes to three projects, the front matter
  and the table of contents coming first.
\<close>

theorem roundtrip_extra_projects:
  "title single_project = ''A'' \<and>
   map title (parse_md (generate_full_md (posix []) today_sample [single_project])) =
     [''About this Repository'', clipboard_emoji @ '' Contents'', ''A'']"
proof -
  have t2: "title (parse_part (lines_text toc_part_lines)) = clipboard_emoji @ '' Contents''"
    by (simp only: parse_part_title toc_part(2)) (simp add: group_def strip_titles)
  have t3: "title (parse_part (lines_text project_part_lines)) = ''A''"
    by (simp only: parse_part_title project_part(2)) (simp add: group_def strip_titles)
  have n2: "clipboard_emoji @ '' Contents'' \<noteq> []" by simp
  have pp: "parse_parts [lines_text toc_part_lines, lines_text project_part_lines,
                  lines_text footer_part_lines @ ''</div>''] =
        [parse_part (lines_text toc_part_lines), parse_part (lines_text project_part_lines)]"
    using toc_part(1) project_part(1) footer_part
    by (simp add: Let_def t2 t3 del: str_contains.simps)
  have "map title (parse_md (generate_full_md (posix []) today_sample [single_project])) =
        map title [parse_part front_matter, parse_part (lines_text toc_part_lines),
                   parse_part (lines_text project_part_lines)]"
    by (simp only: sample_parts pp)
  then show ?thesis
    by (simp add: front_project_title t2 t3) (simp add: single_project_def)
qed

section \<open>The screenshot table\<close>

lemma py_range_two_map: "py_range i stop 2 = map (\<lambda>k. i + 2 * k) [0..<(stop - i + 1) div 2]"
proof (induction i stop "2::nat" rule: py_range.induct)
  case (1 i stop)
  show ?case
  proof (cases "i < stop")
    case True
    define m where "m = (stop - (i + 2) + 1) div 2"
    from True 1 have ih: "py_range (i + 2) stop 2 = map (\<lambda>k. i + 2 + 2 * k) [0..<m]"
      by (simp add: m_def)
    from True have e: "(stop - i + 1) div 2 = Suc m" unfolding m_def by arith
    have "py_range i stop 2 = i # py_range (i + 2) stop 2"
      by (subst py_range.simps) (simp add: True)
    also have "\<dots> = i # map (\<lambda>k. i + 2 * k) (map Suc [0..<m])"
      by (subst ih) (simp add: comp_def)
    also have "\<dots> = map (\<lambda>k. i + 2 * k) (0 # map Suc [0..<m])" by simp
    also have "0 # map Suc [0..<m] = [0..<Suc m]"
      by (simp only: map_Suc_upt upt_conv_Cons [of 0 "Suc m"] zero_less_Suc)
    finally show ?thesis by (simp only: e)
  next
    case False
    then show ?thesis by (subst py_range.simps) simp
  qed
qed

lemma grid_cell_empty:
  \<open>grid_cell os p sl k = ''    <td></td>'' \<longleftrightarrow> length sl \<le> k\<close>
  by (simp add: grid_cell_def)

lemma grid_row_eq:
  \<open>grid_row os p sl i = [''  <tr>'', grid_cell os p sl i, grid_cell os p sl (i + 1), ''  </tr>'']\<close>
  by (simp add: grid_row_def)

lemma length_py_enumerate: "length (py_enumerate xs start) = length xs"
  by (simp add: py_enumerate_def)

lemma grid_lines_eq:
  \<open>grid_lines os p =
     [''<table align="center">''] @
     concat (map (\<lambda>k. grid_row os p (py_enumerate (screenshots p) 1) (2 * k))
                [0..<(length (screenshots p) + 1) div 2]) @
     [''</table>'']\<close>
  unfolding grid_lines_def Let_def length_py_enumerate py_range_two_map
  by (simp add: comp_def del: upt_Suc)

lemma lit_free_append: "lit_free l (xs @ zs) ys = (lit_free l xs (zs @ ys) \<and> lit_free l zs ys)"
  by (induction xs) auto

lemma lit_free_hd: "a \<notin> set xs \<Longrightarrow> lit_free (a # l) xs ys"
  by (induction xs) auto

lemma count_sub_free: "lit_free sub xs ys \<Longrightarrow> count_sub sub (xs @ ys) = count_sub sub ys"
  by (induction xs) auto

lemma count_sub_none: "lit_free sub xs [] \<Longrightarrow> count_sub sub xs = 0"
  using count_sub_free [of sub xs "[]"] by simp

lemma tag_free: "CHR ''<'' \<notin> set f \<Longrightarrow> lit_free ''<tr>'' f ys"
  by (rule lit_free_hd)

lemma str_of_nat_digits: "set (str_of_nat n) \<subseteq> set ascii_digits"
proof (induction n rule: str_of_nat.induct)
  case (1 n)
  have d: "digit_char n \<in> set ascii_digits"
    unfolding digit_char_def by (rule nth_mem) (simp add: ascii_digits_def)
  show ?case
  proof (cases "n < 10")
    case True
    then show ?thesis using d by (subst str_of_nat.simps) simp
  next
    case False
    with 1 d show ?thesis by (subst str_of_nat.simps) simp
  qed
qed

lemma str_of_nat_free: "lit_free ''<tr>'' (str_of_nat n) ys"
  using str_of_nat_digits [of n] by (intro tag_free) (auto simp: ascii_digits_def)

lemma str_of_int_free: "lit_free ''<tr>'' (str_of_int i) ys"
  by (simp add: str_of_int_def str_of_nat_free)

lemma lines_no_row:
  "(\<And>l ys. l \<in> set ls \<Longrightarrow> lit_free ''<tr>'' l ys) \<Longrightarrow> lit_free ''<tr>'' (lines_text ls) ys"
  by (induction ls) (simp_all add: lines_text_Cons lit_free_append)

lemma logo_no_row:
  assumes "l \<in> set (logo_lines os p)" "CHR ''<'' \<notin> set (title p)" "CHR ''<'' \<notin> set (logo_url p)"
    "CHR ''<'' \<notin> set (proj_id p)" "CHR ''<'' \<notin> set (snd (path_splitext os (logo_url p)))"
  shows "lit_free ''<tr>'' l ys"
  using assms by (auto simp: logo_lines_def Let_def lit_free_append tag_free split: if_splits)

lemma title_no_row:
  assumes "l \<in> set (title_lines p)" "CHR ''<'' \<notin> set (title p)"
  shows "lit_free ''<tr>'' l ys"
  using assms by (auto simp: title_lines_def or_else_def lit_free_append tag_free)

lemma spans_no_row:
  \<open>\<forall>c \<in> set cs. CHR ''<'' \<notin> set c \<Longrightarrow>
   lit_free ''<tr>'' (str_join '' '' (map (\<lambda>cat. ''`'' @ cat @ ''`'') cs)) ys\<close>
proof (induction cs)
  case Nil
  show ?case by simp
next
  case (Cons c cs)
  then show ?case by (cases cs) (simp_all add: lit_free_append tag_free)
qed

lemma category_no_row:
  assumes "l \<in> set (category_lines p)" "\<forall>c \<in> set (categories p). CHR ''<'' \<notin> set c"
  shows "lit_free ''<tr>'' l ys"
  using assms spans_no_row [of "categories p" ys]
  by (auto simp: category_lines_def split: if_splits)

lemma banner_no_row:
  assumes "l \<in> set (banner_lines os p)" "CHR ''<'' \<notin> set (title p)"
    "CHR ''<'' \<notin> set (banner_image p)" "CHR ''<'' \<notin> set (proj_id p)"
    "CHR ''<'' \<notin> set (snd (path_splitext os (banner_image p)))"
  shows "lit_free ''<tr>'' l ys"
  using assms by (auto simp: banner_lines_def Let_def lit_free_append tag_free split: if_splits)

lemma description_no_row:
  assumes "l \<in> set (description_lines p)" "CHR ''<'' \<notin> set (short_description p)"
    "CHR ''<'' \<notin> set (long_description p)"
  shows "lit_free ''<tr>'' l ys"
  using assms by (auto simp: description_lines_def lit_free_append tag_free split: if_splits)

lemma theme_no_row:
  assumes "CHR ''<'' \<notin> set (theme_color p)"
  shows "CHR ''<'' \<notin> set (py_lstrip ''#'' (or_else (theme_color p) ''#000000''))"
  using assms set_dropWhileD [of "CHR ''<''" "\<lambda>c. c \<in> set ''#''"]
  by (auto simp: py_lstrip_def or_else_def)

lemma link_no_row:
  assumes "l \<in> set (link_lines p)" "CHR ''<'' \<notin> set (theme_color p)"
    "\<forall>k \<in> set link_keys. CHR ''<'' \<notin> set (links_get (links p) k)"
  shows "lit_free ''<tr>'' l ys"
proof -
  have b: "lit_free ''<tr>'' (''  '' @ x) ys" if "x \<in> set (link_badges p)" for x
    using that assms(3) theme_no_row [OF assms(2)]
    by (auto simp: link_badges_def Let_def badge_def link_keys_def lit_free_append tag_free
        split: if_splits)
  from assms(1) consider "l = ''<p>''" | "l = ''</p>''" | "l = []"
    | x where "x \<in> set (link_badges p)" "l = ''  '' @ x"
    by (auto simp: link_lines_def split: if_splits)
  then show ?thesis
  proof cases
    case 4
    with b show ?thesis by simp
  qed simp_all
qed

lemma tech_no_row:
  assumes "l \<in> set (tech_lines p)" "\<forall>t \<in> set (technologies p). CHR ''<'' \<notin> set t"
  shows "lit_free ''<tr>'' l ys"
  using assms by (auto simp: tech_lines_def lit_free_append tag_free split: if_splits)

lemma feature_no_row:
  assumes "l \<in> set (feature_lines p)" "\<forall>f \<in> set (features p). CHR ''<'' \<notin> set f"
  shows "lit_free ''<tr>'' l ys"
  using assms by (auto simp: feature_lines_def lit_free_append tag_free split: if_splits)

lemma border_no_row: \<open>lit_free ''<tr>'' (''<div style="'' @ border_css p @ ''">'') ys\<close>
  by (simp add: border_css_def Let_def lit_free_append)


lemma enumerate_nth:
  "k < length xs \<Longrightarrow> snd (py_enumerate xs start ! k) \<in> set xs"
  by (simp add: py_enumerate_def)

lemma img_no_row:
  assumes "CHR ''<'' \<notin> set (proj_id p)" "CHR ''<'' \<notin> set (snd (path_splitext os (snd e)))"
  shows "lit_free ''<tr>'' (screenshot_img os p e) ys"
  using assms
  by (simp add: screenshot_img_def Let_def or_else_def lit_free_append tag_free
      str_of_nat_free str_of_int_free)

lemma cell_no_row:
  assumes "CHR ''<'' \<notin> set (proj_id p)"
    "\<forall>x \<in> set (screenshots p). CHR ''<'' \<notin> set (snd (path_splitext os x))"
  shows "lit_free ''<tr>'' (grid_cell os p (py_enumerate (screenshots p) 1) k) ys"
proof (cases "k < length (py_enumerate (screenshots p) 1)")
  case True
  then have "snd (py_enumerate (screenshots p) 1 ! k) \<in> set (screenshots p)"
    by (intro enumerate_nth) (simp add: length_py_enumerate)
  with assms(2) have "CHR ''<'' \<notin> set (snd (path_splitext os (snd (py_enumerate (screenshots p) 1 ! k))))"
    by blast
  from img_no_row [OF assms(1) this] True show ?thesis
    by (simp add: grid_cell_def lit_free_append)
next
  case False
  then show ?thesis by (simp add: grid_cell_def)
qed

lemma count_row:
  assumes "CHR ''<'' \<notin> set (proj_id p)"
    "\<forall>x \<in> set (screenshots p). CHR ''<'' \<notin> set (snd (path_splitext os x))"
  shows "count_sub ''<tr>'' (lines_text (grid_row os p (py_enumerate (screenshots p) 1) i) @ ys) =
     Suc (count_sub ''<tr>'' ys)"
proof -
  let ?c = "grid_cell os p (py_enumerate (screenshots p) 1)"
  have "lit_free ''<tr>'' (?c i @ ''\<newline>'' @ ?c (i + 1) @ ''\<newline>  </tr>\<newline>'') ys"
    using cell_no_row [OF assms] by (simp add: lit_free_append)
  then have "count_sub ''<tr>'' ((?c i @ ''\<newline>'' @ ?c (i + 1) @ ''\<newline>  </tr>\<newline>'') @ ys) =
      count_sub ''<tr>'' ys"
    by (rule count_sub_free)
  then show ?thesis by (simp add: grid_row_eq lines_text_Cons)
qed

lemma count_rows:
  assumes "CHR ''<'' \<notin> set (proj_id p)"
    "\<forall>x \<in> set (screenshots p). CHR ''<'' \<notin> set (snd (path_splitext os x))"
  shows "count_sub ''<tr>''
      (lines_text (concat (map (\<lambda>k. grid_row os p (py_enumerate (screenshots p) 1) (f k)) ks)) @ ys) =
     length ks + count_sub ''<tr>'' ys"
proof (induction ks)
  case Nil
  show ?case by simp
next
  case (Cons k ks)
  then show ?case by (simp add: lines_text_append count_row [OF assms] del: One_nat_def)
qed

lemma grid_sections:
  assumes \<open>screenshot_layout p = ''grid''\<close> "screenshots p \<noteq> []"
  shows \<open>screenshot_lines os p =
     [''### Screenshots'', [], ''<table align="center">''] @ grid_rows os p @ [''</table>'', []]\<close>
  using assms by (simp add: screenshot_lines_def Let_def or_else_def grid_lines_eq grid_rows_def)

lemma grid_block_text:
  assumes \<open>screenshot_layout p = ''grid''\<close> "screenshots p \<noteq> []"
  shows \<open>\<exists>B Z. generate_project_md os p =
     lines_text (B @ [''<div align="center">'', []] @ logo_lines os p @ title_lines p @
       category_lines p @ banner_lines os p @ description_lines p @ link_lines p @
       tech_lines p @ feature_lines p @ [''### Screenshots'', [], ''<table align="center">'']) @
     lines_text (grid_rows os p) @ Z \<and>
     (B = [] \<or> B = [''<div style="'' @ border_css p @ ''">'', []]) \<and>
     (Z = ''</table>\<newline>\<newline></div>\<newline>'' \<or> Z = ''</table>\<newline>\<newline></div>\<newline>\<newline></div>'')\<close>
proof (cases "show_border p \<and> border_css p \<noteq> []")
  case True
  have \<open>generate_project_lines os p =
     (([''<div style="'' @ border_css p @ ''">'', []] @ [''<div align="center">'', []] @
       logo_lines os p @ title_lines p @
       category_lines p @ banner_lines os p @ description_lines p @ link_lines p @
       tech_lines p @ feature_lines p @ [''### Screenshots'', [], ''<table align="center">'']) @
      grid_rows os p @ [''</table>'', [], ''</div>'', []]) @ [''</div>'']\<close>
    using True by (simp add: generate_project_lines_def content_lines_def grid_sections [OF assms])
  then have \<open>generate_project_md os p =
     lines_text (([''<div style="'' @ border_css p @ ''">'', []] @ [''<div align="center">'', []] @
       logo_lines os p @ title_lines p @
       category_lines p @ banner_lines os p @ description_lines p @ link_lines p @
       tech_lines p @ feature_lines p @ [''### Screenshots'', [], ''<table align="center">'']) @
      grid_rows os p @ [''</table>'', [], ''</div>'', []]) @ ''</div>''\<close>
    unfolding generate_project_md_def by (simp only: str_join_lines)
  then show ?thesis
    by (intro exI [of _ \<open>[''<div style="'' @ border_css p @ ''">'', []]\<close>]
          exI [of _ \<open>''</table>\<newline>\<newline></div>\<newline>\<newline></div>''\<close>])
       (simp add: lines_text_append lines_text_Cons)
next
  case False
  have \<open>generate_project_lines os p =
     (([''<div align="center">'', []] @
       logo_lines os p @ title_lines p @
       category_lines p @ banner_lines os p @ description_lines p @ link_lines p @
       tech_lines p @ feature_lines p @ [''### Screenshots'', [], ''<table align="center">'']) @
      grid_rows os p @ [''</table>'', [], ''</div>'']) @ [[]]\<close>
    using False by (simp add: generate_project_lines_def content_lines_def grid_sections [OF assms])
  then have \<open>generate_project_md os p =
     lines_text (([''<div align="center">'', []] @
       logo_lines os p @ title_lines p @
       category_lines p @ banner_lines os p @ description_lines p @ link_lines p @
       tech_lines p @ feature_lines p @ [''### Screenshots'', [], ''<table align="center">'']) @
      grid_rows os p @ [''</table>'', [], ''</div>'']) @ []\<close>
    unfolding generate_project_md_def by (simp only: str_join_lines)
  then show ?thesis
    by (intro exI [of _ "[]"] exI [of _ \<open>''</table>\<newline>\<newline></div>\<newline>''\<close>])
       (simp add: lines_text_append lines_text_Cons)
qed

lemma head_no_row:
  assumes "\<forall>f \<in> set (interpolated os p). CHR ''<'' \<notin> set f"
    \<open>B = [] \<or> B = [''<div style="'' @ border_css p @ ''">'', []]\<close>
  shows \<open>lit_free ''<tr>''
     (lines_text (B @ [''<div align="center">'', []] @ logo_lines os p @ title_lines p @
       category_lines p @ banner_lines os p @ description_lines p @ link_lines p @
       tech_lines p @ feature_lines p @ [''### Screenshots'', [], ''<table align="center">''])) ys\<close>
proof (rule lines_no_row)
  fix l zs
  assume l: \<open>l \<in> set (B @ [''<div align="center">'', []] @ logo_lines os p @ title_lines p @
       category_lines p @ banner_lines os p @ description_lines p @ link_lines p @
       tech_lines p @ feature_lines p @ [''### Screenshots'', [], ''<table align="center">''])\<close>
  from assms(1) have f: "CHR ''<'' \<notin> set (title p)" "CHR ''<'' \<notin> set (short_description p)"
    "CHR ''<'' \<notin> set (long_description p)" "CHR ''<'' \<notin> set (logo_url p)"
    "CHR ''<'' \<notin> set (banner_image p)" "CHR ''<'' \<notin> set (proj_id p)"
    "CHR ''<'' \<notin> set (theme_color p)"
    "\<forall>c \<in> set (categories p). CHR ''<'' \<notin> set c"
    "\<forall>t \<in> set (technologies p). CHR ''<'' \<notin> set t"
    "\<forall>f \<in> set (features p). CHR ''<'' \<notin> set f"
    "\<forall>k \<in> set link_keys. CHR ''<'' \<notin> set (links_get (links p) k)"
    "CHR ''<'' \<notin> set (snd (path_splitext os (logo_url p)))"
    "CHR ''<'' \<notin> set (snd (path_splitext os (banner_image p)))"
    by (simp_all add: interpolated_def)
  from l consider "l \<in> set B" | \<open>l \<in> set [''<div align="center">'', [], ''### Screenshots'',
        ''<table align="center">'']\<close>
    | "l \<in> set (logo_lines os p)" | "l \<in> set (title_lines p)" | "l \<in> set (category_lines p)"
    | "l \<in> set (banner_lines os p)" | "l \<in> set (description_lines p)"
    | "l \<in> set (link_lines p)" | "l \<in> set (tech_lines p)" | "l \<in> set (feature_lines p)"
    by auto
  then show "lit_free ''<tr>'' l zs"
  proof cases
    case 1
    with assms(2) have \<open>l = ''<div style="'' @ border_css p @ ''">'' \<or> l = []\<close> by auto
    then show ?thesis using border_no_row [of p zs] by auto
  next
    case 2
    then show ?thesis by auto
  next
    case 3
    then show ?thesis using f by (intro logo_no_row)
  next
    case 4
    then show ?thesis using f by (intro title_no_row)
  next
    case 5
    then show ?thesis using f by (intro category_no_row)
  next
    case 6
    then show ?thesis using f by (intro banner_no_row)
  next
    case 7
    then show ?thesis using f by (intro description_no_row)
  next
    case 8
    then show ?thesis using f by (intro link_no_row)
  next
    case 9
    then show ?thesis using f by (intro tech_no_row)
  next
    case 10
    then show ?thesis using f by (intro feature_no_row)
  qed
qed

text \<open>
  Claim C4 says that the text encoded for a project with the grid layout and \<open>N\<close>
  screenshots holds exactly \<open>\<lceil>N / 2\<rceil>\<close> table rows, whatever the record. The encoder copies
  the fields into the text as they are: the project with one screenshot whose long
  description is \<^verbatim>\<open><tr>\<close> is encoded with two row openers.
\<close>

theorem grid_rows_counterexample:
  \<open>screenshot_layout tr_sample = ''grid'' \<and> length (screenshots tr_sample) = 1 \<and>
   count_sub ''<tr>'' (generate_project_md (posix []) tr_sample) = 2\<close>
proof -
  have \<open>generate_project_md (posix []) tr_sample =
     ''<div align="center">\<newline>\<newline>## G\<newline>\<newline><p><tr></p>\<newline>\<newline>### Screenshots\<newline>\<newline><table align="center">\<newline>  <tr>\<newline>    <td align="center"><img src="images/g/1.png" width="200"></td>\<newline>    <td></td>\<newline>  </tr>\<newline></table>\<newline>\<newline></div>\<newline>''\<close>
    by code_simp
  then have "count_sub ''<tr>'' (generate_project_md (posix []) tr_sample) = 2"
    by (simp only:) code_simp
  then show ?thesis by (simp add: tr_sample_def)
qed

text \<open>
  Claim C4, amended. When none of the strings that the encoder copies into the text holds
  the character \<^verbatim>\<open><\<close>, the text encoded for a project with the grid layout and \<open>N \<ge> 1\<close>
  screenshots holds exactly \<open>(N + 1) div 2\<close> row openers \<^verbatim>\<open><tr>\<close>, that is \<open>\<lceil>N / 2\<rceil>\<close> table
  rows: it is a stretch without any, then the lines of the rows of the table, then a stretch
  without any. Row \<open>k\<close> holds the cells \<open>2k\<close> and \<open>2k + 1\<close>; a first cell is never empty,
  and a second cell is the empty cell exactly in the last row when \<open>N\<close> is odd.
\<close>

theorem grid_table_rows:
  assumes \<open>screenshot_layout p = ''grid''\<close> "screenshots p \<noteq> []"
    "\<forall>f \<in> set (interpolated os p). CHR ''<'' \<notin> set f"
  shows \<open>count_sub ''<tr>'' (generate_project_md os p) = (length (screenshots p) + 1) div 2 \<and>
   (\<exists>pre post. generate_project_md os p = pre @ lines_text (grid_rows os p) @ post \<and>
      count_sub ''<tr>'' pre = 0 \<and> count_sub ''<tr>'' post = 0) \<and>
   screenshot_lines os p =
     [''### Screenshots'', [], ''<table align="center">''] @ grid_rows os p @ [''</table>'', []] \<and>
   grid_rows os p =
     concat (map (\<lambda>k. [''  <tr>'', grid_cell os p (py_enumerate (screenshots p) 1) (2 * k),
                          grid_cell os p (py_enumerate (screenshots p) 1) (2 * k + 1), ''  </tr>''])
               [0..<(length (screenshots p) + 1) div 2]) \<and>
   (\<forall>k < (length (screenshots p) + 1) div 2.
      grid_cell os p (py_enumerate (screenshots p) 1) (2 * k) \<noteq> ''    <td></td>'' \<and>
      (grid_cell os p (py_enumerate (screenshots p) 1) (2 * k + 1) = ''    <td></td>'' \<longleftrightarrow>
         odd (length (screenshots p)) \<and> k = (length (screenshots p) + 1) div 2 - 1))\<close>
proof -
  from assms(3) have f: "CHR ''<'' \<notin> set (proj_id p)"
    "\<forall>x \<in> set (screenshots p). CHR ''<'' \<notin> set (snd (path_splitext os x))"
    by (simp_all add: interpolated_def)
  from grid_block_text [OF assms(1,2), of os] obtain B Z where
    t: \<open>generate_project_md os p =
     lines_text (B @ [''<div align="center">'', []] @ logo_lines os p @ title_lines p @
       category_lines p @ banner_lines os p @ description_lines p @ link_lines p @
       tech_lines p @ feature_lines p @ [''### Screenshots'', [], ''<table align="center">'']) @
     lines_text (grid_rows os p) @ Z\<close>
    and b: \<open>B = [] \<or> B = [''<div style="'' @ border_css p @ ''">'', []]\<close>
    and z: \<open>Z = ''</table>\<newline>\<newline></div>\<newline>'' \<or> Z = ''</table>\<newline>\<newline></div>\<newline>\<newline></div>''\<close>
    by blast
  define pre where \<open>pre = lines_text (B @ [''<div align="center">'', []] @ logo_lines os p @
       title_lines p @ category_lines p @ banner_lines os p @ description_lines p @
       link_lines p @ tech_lines p @ feature_lines p @
       [''### Screenshots'', [], ''<table align="center">''])\<close>
  have t': "generate_project_md os p = pre @ lines_text (grid_rows os p) @ Z"
    unfolding pre_def by (rule t)
  have pf: "lit_free ''<tr>'' pre ys" for ys
    unfolding pre_def by (rule head_no_row [OF assms(3) b])
  have zc: "count_sub ''<tr>'' Z = 0" using z by auto
  have pc: "count_sub ''<tr>'' pre = 0" by (rule count_sub_none) (rule pf)
  have "count_sub ''<tr>'' (generate_project_md os p) =
        count_sub ''<tr>'' (lines_text (grid_rows os p) @ Z)"
    unfolding t' by (rule count_sub_free) (rule pf)
  also have "\<dots> = length [0..<(length (screenshots p) + 1) div 2] + count_sub ''<tr>'' Z"
    unfolding grid_rows_def by (rule count_rows [OF f])
  finally have c: "count_sub ''<tr>'' (generate_project_md os p) = (length (screenshots p) + 1) div 2"
    by (simp add: zc)
  have e: "\<exists>pre post. generate_project_md os p = pre @ lines_text (grid_rows os p) @ post \<and>
      count_sub ''<tr>'' pre = 0 \<and> count_sub ''<tr>'' post = 0"
    using t' pc zc by blast
  have r: \<open>grid_rows os p =
     concat (map (\<lambda>k. [''  <tr>'', grid_cell os p (py_enumerate (screenshots p) 1) (2 * k),
                          grid_cell os p (py_enumerate (screenshots p) 1) (2 * k + 1), ''  </tr>''])
               [0..<(length (screenshots p) + 1) div 2])\<close>
    by (simp add: grid_rows_def grid_row_eq)
  have k: \<open>grid_cell os p (py_enumerate (screenshots p) 1) (2 * k) \<noteq> ''    <td></td>'' \<and>
      (grid_cell os p (py_enumerate (screenshots p) 1) (2 * k + 1) = ''    <td></td>'' \<longleftrightarrow>
         odd (length (screenshots p)) \<and> k = (length (screenshots p) + 1) div 2 - 1)\<close>
    if "k < (length (screenshots p) + 1) div 2" for k
    using that by (simp add: grid_cell_empty length_py_enumerate) presburger
  from c e grid_sections [OF assms(1,2), of os] r k show ?thesis by blast
qed


theorem grid_table_rows_witness:
  \<open>count_sub ''<tr>'' (generate_project_md (posix []) grid_sample) = 2 \<and>
   grid_rows (posix []) grid_sample =
     [''  <tr>'',
      ''    <td align="center"><img src="images/g/1.png" width="200"></td>'',
      ''    <td align="center"><img src="images/g/2.jpg" width="200"></td>'',
      ''  </tr>'',
      ''  <tr>'',
      ''    <td align="center"><img src="images/g/3.png" width="200"></td>'',
      ''    <td></td>'',
      ''  </tr>'']\<close>
proof -
  have h1: \<open>screenshot_layout grid_sample = ''grid''\<close> by (simp add: grid_sample_def)
  have h2: "screenshots grid_sample \<noteq> []" by (simp add: grid_sample_def)
  have h3: "\<forall>f \<in> set (interpolated (posix []) grid_sample). CHR ''<'' \<notin> set f" by code_simp
  have n: "length (screenshots grid_sample) = 3" by (simp add: grid_sample_def)
  have c: \<open>map (grid_cell (posix []) grid_sample (py_enumerate (screenshots grid_sample) 1))
             [0, 1, 2, 3] =
     [''    <td align="center"><img src="images/g/1.png" width="200"></td>'',
      ''    <td align="center"><img src="images/g/2.jpg" width="200"></td>'',
      ''    <td align="center"><img src="images/g/3.png" width="200"></td>'',
      ''    <td></td>'']\<close>
    by code_simp
  have u: "[0..<2] = [0, Suc 0]" by (simp add: upt_rec)
  from grid_table_rows [OF h1 h2 h3] c show ?thesis
    by (simp add: n u)
qed

end
